theory Spec2Isabelle
  imports Main "HOL-Library.Word"
begin

unbundle bit_operations_syntax

section \<open>The options object\<close>

text \<open>
  The class \<open>CommandlineOptions\<close> of \<open>commandlineoptions.cpp\<close>. Its two enums are
  datatypes, its \<open>int\<close> members 32-bit words (read as two's complement, so \<open>- 1\<close> is the
  sentinel), its \<open>QList<QUrl>\<close> a list. A \<open>QUrl\<close> is modelled by its text. The members
  are named as in the source without the trailing underscore. \<open>argc_\<close> and \<open>argv_\<close>
  are not part of the record: the argument vector is the argument of \<open>Parse\<close> below.
\<close>

datatype UrlListAction = UrlList_Append | UrlList_Load

datatype PlayerAction =
  Player_None | Player_Play | Player_PlayPause | Player_Pause
  | Player_Stop | Player_Previous | Player_Next

type_synonym qint32 = "32 word"
type_synonym QUrl = string

record CommandlineOptions =
  url_list_action :: UrlListAction
  player_action :: PlayerAction
  set_volume :: qint32
  volume_modifier :: qint32
  seek_to :: qint32
  play_track_at :: qint32
  show_osd :: bool
  urls :: "QUrl list"

text \<open>The constructor's member initialisers.\<close>

definition CommandlineOptions_init :: CommandlineOptions where
  "CommandlineOptions_init =
     \<lparr> url_list_action = UrlList_Append,
       player_action = Player_None,
       set_volume = - 1,
       volume_modifier = 0,
       seek_to = - 1,
       play_track_at = - 1,
       show_osd = False,
       urls = [] \<rparr>"

text \<open>
  What \<open>Parse\<close> takes from Qt and from the process: the help text after translation and
  substitution of its placeholders, \<open>QString::toInt\<close> (\<open>None\<close> when it reports
  \<open>ok = false\<close>) and \<open>QFileInfo::absoluteFilePath\<close>, which depends on the current
  directory. They are parameters of the model.
\<close>

record qt_env =
  translated_help_text :: string
  toInt :: "string \<Rightarrow> qint32 option"
  absoluteFilePath :: "string \<Rightarrow> string"

section \<open>\<open>getopt_long\<close>\<close>

text \<open>
  \<open>Parse\<close> scans its arguments with the C library's \<open>getopt_long\<close>. The model follows
  the GNU implementation in its default mode (the option string starts with neither
  \<open>+\<close> nor \<open>-\<close> and \<open>POSIXLY_CORRECT\<close> is not set, so non-options are permuted behind
  the options), called on a fresh scanner (\<open>optind = 1\<close>).

  The scanner's state is the argument vector in three parts and the rest of the cluster
  of short options being read:
  \<^item> \<open>scanned\<close>: the program name and the option elements consumed so far;
  \<^item> \<open>nonopts\<close>: the non-options passed over so far, which the library keeps behind the
    consumed options;
  \<^item> \<open>todo\<close>: the elements from \<open>optind\<close> on; while a cluster is being read its element
    is still the first of them;
  \<^item> \<open>nextchar\<close>: the characters of the cluster not yet read.
  The vector is \<open>scanned @ nonopts @ todo\<close> and \<open>optind\<close>, when the scan ends, is
  \<open>length scanned\<close>.
\<close>

datatype has_arg = no_argument | required_argument

type_synonym long_option = "string \<times> has_arg \<times> int"

record getopt_data =
  scanned :: "string list"
  nonopts :: "string list"
  todo :: "string list"
  nextchar :: string
  optarg :: "string option"

definition argv_of :: "getopt_data \<Rightarrow> string list" where
  "argv_of d = scanned d @ nonopts d @ todo d"

definition getopt_start :: "string list \<Rightarrow> getopt_data" where
  "getopt_start argv =
     \<lparr> scanned = take 1 argv, nonopts = [], todo = drop 1 argv, nextchar = [], optarg = None \<rparr>"

text \<open>\<open>NONOPTION_P\<close>: the element does not start with \<open>-\<close>, or is \<open>-\<close> alone.\<close>

definition nonoption_p :: "string \<Rightarrow> bool" where
  "nonoption_p a = (case a of [] \<Rightarrow> True | c # cs \<Rightarrow> c \<noteq> CHR ''-'' \<or> cs = [])"

text \<open>\<open>++optind\<close>: the element at \<open>optind\<close> joins the consumed ones.\<close>

definition advance :: "getopt_data \<Rightarrow> getopt_data" where
  "advance d = d\<lparr> scanned := scanned d @ take 1 (todo d), todo := drop 1 (todo d) \<rparr>"

fun strchr :: "string \<Rightarrow> char \<Rightarrow> string option" where
  "strchr [] c = None"
| "strchr (x # xs) c = (if x = c then Some (x # xs) else strchr xs c)"

definition question_mark :: int where
  "question_mark = of_char CHR ''?''"

text \<open>
  One short option character. The option strings of this program have no optional
  argument (\<open>::\<close>) and no \<open>W;\<close>, so those branches of the library are left out. The
  function is called with a cluster in progress; its first case never arises.
\<close>

definition short_option :: "string \<Rightarrow> getopt_data \<Rightarrow> int \<times> getopt_data" where
  "short_option optstring d =
     (case nextchar d of
        [] \<Rightarrow> (question_mark, d)
      | c # cs \<Rightarrow>
          let d1 = d\<lparr> nextchar := cs \<rparr>;
              d2 = (if cs = [] then advance d1 else d1)
          in (case strchr optstring c of
                None \<Rightarrow> (question_mark, d2)
              | Some temp \<Rightarrow>
                  if c = CHR '':'' \<or> c = CHR '';'' then (question_mark, d2)
                  else if take 1 (drop 1 temp) = '':'' then
                    (if cs \<noteq> [] then
                       (of_char c, (advance d2)\<lparr> optarg := Some cs, nextchar := [] \<rparr>)
                     else (case todo d2 of
                             [] \<Rightarrow> (question_mark, d2\<lparr> nextchar := [] \<rparr>)
                           | a # as \<Rightarrow>
                               (of_char c, (advance d2)\<lparr> optarg := Some a, nextchar := [] \<rparr>)))
                  else (of_char c, d2)))"

text \<open>
  A long option \<open>--name\<close> or \<open>--name=value\<close>; \<open>nextchar\<close> holds the text after the two
  dashes. An exact match of the name wins; otherwise the name may abbreviate exactly one
  entry of the table (or several that agree on \<open>has_arg\<close> and \<open>val\<close>). The index of the
  entry is stored through \<open>longind\<close> only when the option is accepted.
\<close>

definition exact_match :: "long_option list \<Rightarrow> string \<Rightarrow> nat option" where
  "exact_match longopts nm =
     (case filter (\<lambda>i. fst (longopts ! i) = nm) [0 ..< length longopts] of
        [] \<Rightarrow> None | i # _ \<Rightarrow> Some i)"

definition abbreviations :: "long_option list \<Rightarrow> string \<Rightarrow> nat list" where
  "abbreviations longopts nm =
     filter (\<lambda>i. take (length nm) (fst (longopts ! i)) = nm) [0 ..< length longopts]"

datatype lookup = Found nat | Ambiguous | Unrecognized

definition find_long_option :: "long_option list \<Rightarrow> string \<Rightarrow> lookup" where
  "find_long_option longopts nm =
     (case exact_match longopts nm of
        Some i \<Rightarrow> Found i
      | None \<Rightarrow>
         (case abbreviations longopts nm of
            [] \<Rightarrow> Unrecognized
          | i # js \<Rightarrow>
              if list_ex (\<lambda>j. snd (longopts ! j) \<noteq> snd (longopts ! i)) js
              then Ambiguous else Found i))"

definition process_long_option ::
  "long_option list \<Rightarrow> getopt_data \<Rightarrow> nat \<Rightarrow> int \<times> getopt_data \<times> nat" where
  "process_long_option longopts d longind =
     (let nm = takeWhile (\<lambda>c. c \<noteq> CHR ''='') (nextchar d);
          nameend = dropWhile (\<lambda>c. c \<noteq> CHR ''='') (nextchar d);
          d1 = (advance d)\<lparr> nextchar := [] \<rparr>
      in case find_long_option longopts nm of
           Ambiguous \<Rightarrow> (question_mark, d1, longind)
         | Unrecognized \<Rightarrow> (question_mark, d1, longind)
         | Found i \<Rightarrow>
             (case longopts ! i of (_, has, v) \<Rightarrow>
                if nameend \<noteq> [] then
                  (if has \<noteq> no_argument then (v, d1\<lparr> optarg := Some (tl nameend) \<rparr>, i)
                   else (question_mark, d1, longind))
                else if has = required_argument then
                  (case todo d1 of
                     [] \<Rightarrow> (question_mark, d1, longind)
                   | a # as \<Rightarrow> (v, (advance d1)\<lparr> optarg := Some a \<rparr>, i))
                else (v, d1, i)))"

text \<open>
  One call. With no cluster in progress the scanner first passes over non-options, then
  either ends the scan (nothing left, or \<open>--\<close>, after which everything is a non-option)
  or reads the option element it has reached. The result is the returned character, the
  new state and the value behind \<open>longind\<close>.
\<close>

definition getopt_long ::
  "string \<Rightarrow> long_option list \<Rightarrow> getopt_data \<Rightarrow> nat \<Rightarrow> int \<times> getopt_data \<times> nat" where
  "getopt_long optstring longopts d0 longind =
     (let d = d0\<lparr> optarg := None \<rparr> in
      if nextchar d \<noteq> [] then
        (case short_option optstring d of (c, d') \<Rightarrow> (c, d', longind))
      else
        let d1 = d\<lparr> nonopts := nonopts d @ takeWhile nonoption_p (todo d),
                    todo := dropWhile nonoption_p (todo d) \<rparr>
        in case todo d1 of
             [] \<Rightarrow> (- 1, d1, longind)
           | a # as \<Rightarrow>
               if a = ''--'' then
                 (- 1, d1\<lparr> scanned := scanned d1 @ [a], nonopts := nonopts d1 @ as, todo := [] \<rparr>,
                  longind)
               else if take 1 (drop 1 a) = ''-'' then
                 process_long_option longopts (d1\<lparr> nextchar := drop 2 a \<rparr>) longind
               else
                 (case short_option optstring (d1\<lparr> nextchar := drop 1 a \<rparr>) of
                    (c, d') \<Rightarrow> (c, d', longind)))"

section \<open>\<open>CommandlineOptions::Parse\<close>\<close>

text \<open>
  Modelled from the spec: the header \<open>commandlineoptions.h\<close> is not among the sources.
  It declares the enumerators \<open>VolumeUp\<close>, \<open>VolumeDown\<close> and \<open>SeekTo\<close>, which \<open>Parse\<close>
  uses as the values of the long options without a short form. As labels of one
  \<open>switch\<close> they differ from each other and from every option character; the model
  takes the first values past the characters.
\<close>

definition VolumeUp :: int where "VolumeUp = 256"
definition VolumeDown :: int where "VolumeDown = 257"
definition SeekTo :: int where "SeekTo = 258"

definition kOptions :: "long_option list" where
  "kOptions =
     [(''help'', no_argument, of_char CHR ''h''),
      (''play'', no_argument, of_char CHR ''p''),
      (''play-pause'', no_argument, of_char CHR ''t''),
      (''pause'', no_argument, of_char CHR ''u''),
      (''stop'', no_argument, of_char CHR ''s''),
      (''previous'', no_argument, of_char CHR ''r''),
      (''next'', no_argument, of_char CHR ''f''),
      (''volume'', required_argument, of_char CHR ''v''),
      (''volume-up'', no_argument, VolumeUp),
      (''volume-down'', no_argument, VolumeDown),
      (''seek-to'', required_argument, SeekTo),
      (''append'', no_argument, of_char CHR ''a''),
      (''load'', no_argument, of_char CHR ''l''),
      (''play-track'', required_argument, of_char CHR ''k''),
      (''show-osd'', no_argument, of_char CHR ''o'')]"

definition kOptstring :: string where
  "kOptstring = ''hptusrfv:alk:o''"

text \<open>
  \<open>QString(optarg).toInt(&ok)\<close> followed by \<open>if (!ok) ... = -1\<close>. A null \<open>optarg\<close> makes a
  null \<open>QString\<close>, which is no number.
\<close>

definition toInt_or_minus_one :: "qt_env \<Rightarrow> string option \<Rightarrow> qint32" where
  "toInt_or_minus_one env arg =
     (case arg of
        None \<Rightarrow> - 1
      | Some s \<Rightarrow> (case toInt env s of Some n \<Rightarrow> n | None \<Rightarrow> - 1))"

text \<open>
  The \<open>switch (c)\<close> of the loop. A case either ends in \<open>break\<close>, with the object updated,
  or returns \<open>false\<close> from \<open>Parse\<close>, after writing the given text to \<open>std::cout\<close>.
\<close>

datatype switch_exit =
  Break CommandlineOptions
  | Return_false string CommandlineOptions

definition switch :: "qt_env \<Rightarrow> int \<Rightarrow> string option \<Rightarrow> CommandlineOptions \<Rightarrow> switch_exit" where
  "switch env c arg a =
     (if c = of_char CHR ''h'' then Return_false (translated_help_text env) a
      else if c = of_char CHR ''p'' then Break (a\<lparr> player_action := Player_Play \<rparr>)
      else if c = of_char CHR ''t'' then Break (a\<lparr> player_action := Player_PlayPause \<rparr>)
      else if c = of_char CHR ''u'' then Break (a\<lparr> player_action := Player_Pause \<rparr>)
      else if c = of_char CHR ''s'' then Break (a\<lparr> player_action := Player_Stop \<rparr>)
      else if c = of_char CHR ''r'' then Break (a\<lparr> player_action := Player_Previous \<rparr>)
      else if c = of_char CHR ''f'' then Break (a\<lparr> player_action := Player_Next \<rparr>)
      else if c = of_char CHR ''a'' then Break (a\<lparr> url_list_action := UrlList_Append \<rparr>)
      else if c = of_char CHR ''l'' then Break (a\<lparr> url_list_action := UrlList_Load \<rparr>)
      else if c = of_char CHR ''o'' then Break (a\<lparr> show_osd := True \<rparr>)
      else if c = VolumeUp then Break (a\<lparr> volume_modifier := 4 \<rparr>)
      else if c = VolumeDown then Break (a\<lparr> volume_modifier := - 4 \<rparr>)
      else if c = of_char CHR ''v'' then Break (a\<lparr> set_volume := toInt_or_minus_one env arg \<rparr>)
      else if c = SeekTo then Break (a\<lparr> seek_to := toInt_or_minus_one env arg \<rparr>)
      else if c = of_char CHR ''k'' then
        Break (a\<lparr> play_track_at := toInt_or_minus_one env arg \<rparr>)
      else Return_false [] a)"

text \<open>
  The loop over the arguments from \<open>option_index + 1\<close> on. An argument that contains
  \<open>://\<close> becomes the URL of that text; any other becomes the \<open>file\<close> URL of its absolute
  path (written here without percent-encoding).
\<close>

fun contains :: "string \<Rightarrow> string \<Rightarrow> bool" where
  "contains [] sub = (sub = [])"
| "contains (x # xs) sub = (take (length sub) (x # xs) = sub \<or> contains xs sub)"

definition fromLocalFile :: "string \<Rightarrow> QUrl" where
  "fromLocalFile path = ''file://'' @ path"

definition url_of_argument :: "qt_env \<Rightarrow> string \<Rightarrow> QUrl" where
  "url_of_argument env v =
     (if contains v ''://'' then v else fromLocalFile (absoluteFilePath env v))"

fun append_urls :: "qt_env \<Rightarrow> string list \<Rightarrow> CommandlineOptions \<Rightarrow> CommandlineOptions" where
  "append_urls env [] a = a"
| "append_urls env (v # vs) a =
     append_urls env vs (a\<lparr> urls := urls a @ [url_of_argument env v] \<rparr>)"

record Parse_result =
  returned :: bool
  object :: CommandlineOptions
  cout :: string

text \<open>
  What is left to read: the measure of the \<open>forever\<close> loop. Every call of
  \<open>getopt_long\<close> that does not end the scan makes it smaller.
\<close>

definition size_args :: "string list \<Rightarrow> nat" where
  "size_args as = sum_list (map (\<lambda>a. length a + 2) as)"

definition pending :: "getopt_data \<Rightarrow> nat" where
  "pending d =
     (if nextchar d = [] then size_args (todo d)
      else size_args (drop 1 (todo d)) + length (nextchar d) + 1)"

lemma size_args_simps [simp]:
  "size_args [] = 0" "size_args (a # as) = length a + 2 + size_args as"
  by (simp_all add: size_args_def)

lemma size_args_dropWhile: "size_args (dropWhile P as) \<le> size_args as"
  by (induction as) simp_all

lemma pending_optarg [simp]: "pending (d\<lparr> optarg := x \<rparr>) = pending d"
  by (simp add: pending_def)

lemma short_option_pending:
  assumes "nextchar d \<noteq> []" and "short_option optstring d = (c, d')"
  shows "pending d' < pending d"
  using assms
  by (cases "todo d"; cases "drop 1 (todo d)")
     (auto simp: short_option_def pending_def advance_def Let_def
           split: list.splits option.splits if_splits)

lemma process_long_option_pending:
  assumes "nextchar d \<noteq> []" and "process_long_option longopts d i = (c, d', i')"
  shows "pending d' < pending d"
  using assms
  by (cases "todo d"; cases "drop 1 (todo d)")
     (auto simp: process_long_option_def pending_def advance_def Let_def
           split: list.splits option.splits if_splits lookup.splits prod.splits)

lemma hd_dropWhile_option:
  assumes "dropWhile nonoption_p xs = a # as"
  shows "\<exists>c cs. a = CHR ''-'' # c # cs"
proof -
  have "\<not> nonoption_p a"
    using assms hd_dropWhile [of nonoption_p xs] by simp
  then show ?thesis
    by (auto simp: nonoption_p_def neq_Nil_conv split: list.splits)
qed

lemma getopt_long_pending:
  assumes "getopt_long optstring longopts d i = (c, d', i')" and "c \<noteq> - 1"
  shows "pending d' < pending d"
proof (cases "nextchar d = []")
  case False
  with assms show ?thesis
    using short_option_pending [of "d\<lparr> optarg := None \<rparr>" optstring c d']
    by (auto simp: getopt_long_def split: prod.splits)
next
  case True
  define d1 where "d1 = d\<lparr> optarg := None, nonopts := nonopts d @ takeWhile nonoption_p (todo d),
    todo := dropWhile nonoption_p (todo d) \<rparr>"
  from assms True obtain a as where todo1: "dropWhile nonoption_p (todo d) = a # as"
    by (cases "dropWhile nonoption_p (todo d)") (auto simp: getopt_long_def Let_def)
  then obtain x xs where a: "a = CHR ''-'' # x # xs"
    using hd_dropWhile_option by blast
  have le: "size_args (a # as) \<le> pending d"
    using size_args_dropWhile [of nonoption_p "todo d"] True todo1 by (simp add: pending_def)
  show ?thesis
  proof (cases "x = CHR ''-''")
    case long: True
    with assms(2) assms(1) True todo1 a have xs: "xs \<noteq> []"
      by (auto simp: getopt_long_def Let_def)
    have "process_long_option longopts (d1\<lparr> nextchar := xs \<rparr>) i = (c, d', i')"
      using assms True todo1 a long xs by (simp add: getopt_long_def Let_def d1_def)
    from process_long_option_pending [OF _ this] xs
    have "pending d' < pending (d1\<lparr> nextchar := xs \<rparr>)" by simp
    also have "\<dots> < size_args (a # as)"
      using xs by (simp add: pending_def d1_def todo1 a)
    finally show ?thesis using le by simp
  next
    case short: False
    have "short_option optstring (d1\<lparr> nextchar := x # xs \<rparr>) = (c, d')"
      using assms True todo1 a short
      by (auto simp: getopt_long_def Let_def d1_def split: prod.splits)
    from short_option_pending [OF _ this]
    have "pending d' < pending (d1\<lparr> nextchar := x # xs \<rparr>)" by simp
    also have "\<dots> < size_args (a # as)"
      by (simp add: pending_def d1_def todo1 a)
    finally show ?thesis using le by simp
  qed
qed

text \<open>
  The \<open>forever\<close> loop of \<open>Parse\<close>. \<open>option_index\<close> is the local variable whose address
  is passed to \<open>getopt_long\<close> as \<open>longind\<close>. The loop is left either by its \<open>break\<close>,
  when the scan has ended (\<open>c == -1\<close>), or by a \<open>return false\<close> inside the \<open>switch\<close>.
\<close>

datatype loop_exit =
  End_of_options getopt_data nat CommandlineOptions
  | Returned_false string CommandlineOptions

function Parse_loop ::
  "qt_env \<Rightarrow> getopt_data \<Rightarrow> nat \<Rightarrow> CommandlineOptions \<Rightarrow> loop_exit" where
  "Parse_loop env d option_index a =
     (case getopt_long kOptstring kOptions d option_index of
        (c, d', option_index') \<Rightarrow>
          if c = - 1 then End_of_options d' option_index' a
          else
            (case switch env c (optarg d') a of
               Break a' \<Rightarrow> Parse_loop env d' option_index' a'
             | Return_false text a' \<Rightarrow> Returned_false text a'))"
  by pat_completeness auto
termination
  by (relation "measure (\<lambda>(env, d, option_index, a). pending d)")
     (auto dest: getopt_long_pending [OF sym])

declare Parse_loop.simps [simp del]

text \<open>
  \<open>Parse\<close>: the loop on a fresh scanner with \<open>option_index = 0\<close>; after it the arguments
  from \<open>option_index + 1\<close> on, in the vector as the library has left it, become URLs and
  \<open>Parse\<close> returns \<open>true\<close>. The result holds the returned value, the object as \<open>Parse\<close>
  leaves it and what was written to \<open>std::cout\<close>.
\<close>

definition Parse :: "qt_env \<Rightarrow> string list \<Rightarrow> CommandlineOptions \<Rightarrow> Parse_result" where
  "Parse env argv a =
     (case Parse_loop env (getopt_start argv) 0 a of
        Returned_false text a' \<Rightarrow> \<lparr> returned = False, object = a', cout = text \<rparr>
      | End_of_options d option_index a' \<Rightarrow>
          \<lparr> returned = True,
            object = append_urls env (drop (option_index + 1) (argv_of d)) a',
            cout = [] \<rparr>)"

section \<open>\<open>CommandlineOptions::is_empty\<close>\<close>

definition is_empty :: "CommandlineOptions \<Rightarrow> bool" where
  "is_empty a \<longleftrightarrow>
     player_action a = Player_None \<and>
     set_volume a = - 1 \<and>
     volume_modifier a = 0 \<and>
     seek_to a = - 1 \<and>
     play_track_at a = - 1 \<and>
     show_osd a = False \<and>
     urls a = []"

section \<open>Serialisation\<close>

text \<open>
  \<open>QDataStream\<close> in its default big-endian byte order. A read past the end of the
  buffer yields zero and leaves the buffer exhausted, as the stream does.
\<close>

type_synonym byte = "8 word"

definition put_qint32 :: "qint32 \<Rightarrow> byte list" where
  "put_qint32 i = [ucast (drop_bit 24 i), ucast (drop_bit 16 i), ucast (drop_bit 8 i), ucast i]"

fun get_qint32 :: "byte list \<Rightarrow> qint32 \<times> byte list" where
  "get_qint32 (b0 # b1 # b2 # b3 # bs) =
     (push_bit 24 (ucast b0) OR push_bit 16 (ucast b1) OR push_bit 8 (ucast b2) OR ucast b3, bs)"
| "get_qint32 bs = (0, [])"

definition put_bool :: "bool \<Rightarrow> byte list" where
  "put_bool b = [if b then 1 else 0]"

fun get_bool :: "byte list \<Rightarrow> bool \<times> byte list" where
  "get_bool (b # bs) = (b \<noteq> 0, bs)"
| "get_bool [] = (False, [])"

text \<open>
  A \<open>QByteArray\<close>: its length as a \<open>quint32\<close>, then its bytes. The length
  \<open>0xFFFFFFFF\<close> marks a null array, which reads as the empty one; an array that holds
  fewer bytes than its length announces reads as the empty one too.
\<close>

definition put_QByteArray :: "byte list \<Rightarrow> byte list" where
  "put_QByteArray ba = put_qint32 (of_nat (length ba)) @ ba"

definition get_QByteArray :: "byte list \<Rightarrow> byte list \<times> byte list" where
  "get_QByteArray bs =
     (case get_qint32 bs of (len, rest) \<Rightarrow>
        if len = - 1 then ([], rest)
        else if unat len \<le> length rest then (take (unat len) rest, drop (unat len) rest)
        else ([], []))"

text \<open>A \<open>QUrl\<close> travels as its encoded form, the bytes of its text.\<close>

definition toEncoded :: "QUrl \<Rightarrow> byte list" where
  "toEncoded u = map (\<lambda>c. of_nat (of_char c)) u"

definition fromEncoded :: "byte list \<Rightarrow> QUrl" where
  "fromEncoded ba = map (\<lambda>b. char_of (unat b)) ba"

definition put_QUrl :: "QUrl \<Rightarrow> byte list" where
  "put_QUrl u = put_QByteArray (toEncoded u)"

definition get_QUrl :: "byte list \<Rightarrow> QUrl \<times> byte list" where
  "get_QUrl bs = (case get_QByteArray bs of (ba, rest) \<Rightarrow> (fromEncoded ba, rest))"

text \<open>
  A \<open>QList\<close>: the number of elements as a \<open>quint32\<close>, then the elements. The reading
  loop stops early when the stream is at its end.
\<close>

definition put_QList_QUrl :: "QUrl list \<Rightarrow> byte list" where
  "put_QList_QUrl l = put_qint32 (of_nat (length l)) @ concat (map put_QUrl l)"

fun get_elements :: "nat \<Rightarrow> byte list \<Rightarrow> QUrl list \<times> byte list" where
  "get_elements 0 bs = ([], bs)"
| "get_elements (Suc n) bs =
     (case get_QUrl bs of (t, rest) \<Rightarrow>
        if rest = [] then ([t], rest)
        else (case get_elements n rest of (ts, rest') \<Rightarrow> (t # ts, rest')))"

definition get_QList_QUrl :: "byte list \<Rightarrow> QUrl list \<times> byte list" where
  "get_QList_QUrl bs = (case get_qint32 bs of (c, rest) \<Rightarrow> get_elements (unat c) rest)"

text \<open>
  Modelled from the spec: the values of the enumerators are declared in
  \<open>commandlineoptions.h\<close>, which is not among the sources. Following the spec they are
  the ordinals in the order of its data model. \<open>operator>>\<close> stores the integer it reads
  into the enum member; an integer that is no enumerator's value gives no value of the
  datatype, which is \<open>None\<close> here.
\<close>

fun qint32_of_PlayerAction :: "PlayerAction \<Rightarrow> qint32" where
  "qint32_of_PlayerAction Player_None = 0"
| "qint32_of_PlayerAction Player_Play = 1"
| "qint32_of_PlayerAction Player_PlayPause = 2"
| "qint32_of_PlayerAction Player_Pause = 3"
| "qint32_of_PlayerAction Player_Stop = 4"
| "qint32_of_PlayerAction Player_Previous = 5"
| "qint32_of_PlayerAction Player_Next = 6"

fun qint32_of_UrlListAction :: "UrlListAction \<Rightarrow> qint32" where
  "qint32_of_UrlListAction UrlList_Append = 0"
| "qint32_of_UrlListAction UrlList_Load = 1"

definition PlayerAction_of_qint32 :: "qint32 \<Rightarrow> PlayerAction option" where
  "PlayerAction_of_qint32 i =
     (if i = 0 then Some Player_None
      else if i = 1 then Some Player_Play
      else if i = 2 then Some Player_PlayPause
      else if i = 3 then Some Player_Pause
      else if i = 4 then Some Player_Stop
      else if i = 5 then Some Player_Previous
      else if i = 6 then Some Player_Next
      else None)"

definition UrlListAction_of_qint32 :: "qint32 \<Rightarrow> UrlListAction option" where
  "UrlListAction_of_qint32 i =
     (if i = 0 then Some UrlList_Append
      else if i = 1 then Some UrlList_Load
      else None)"

text \<open>\<open>operator<<\<close> and \<open>Serialize\<close>, which writes the object to an empty buffer.\<close>

definition stream_out :: "CommandlineOptions \<Rightarrow> byte list" where
  "stream_out a =
     put_qint32 (qint32_of_PlayerAction (player_action a))
     @ put_qint32 (qint32_of_UrlListAction (url_list_action a))
     @ put_qint32 (set_volume a)
     @ put_qint32 (volume_modifier a)
     @ put_qint32 (seek_to a)
     @ put_qint32 (play_track_at a)
     @ put_bool (show_osd a)
     @ put_QList_QUrl (urls a)"

definition Serialize :: "CommandlineOptions \<Rightarrow> byte list" where
  "Serialize a = stream_out a"

text \<open>\<open>operator>>\<close> and \<open>Load\<close>, which reads into the object from a copy of the bytes.\<close>

definition stream_in :: "byte list \<Rightarrow> CommandlineOptions \<Rightarrow> CommandlineOptions option" where
  "stream_in s0 a =
     (case get_qint32 s0 of (pa, s1) \<Rightarrow>
      case get_qint32 s1 of (ula, s2) \<Rightarrow>
      case get_qint32 s2 of (sv, s3) \<Rightarrow>
      case get_qint32 s3 of (vm, s4) \<Rightarrow>
      case get_qint32 s4 of (st, s5) \<Rightarrow>
      case get_qint32 s5 of (pt, s6) \<Rightarrow>
      case get_bool s6 of (so, s7) \<Rightarrow>
      case get_QList_QUrl s7 of (us, s8) \<Rightarrow>
        (case (PlayerAction_of_qint32 pa, UrlListAction_of_qint32 ula) of
           (Some p, Some u) \<Rightarrow>
             Some (a\<lparr> player_action := p, url_list_action := u, set_volume := sv,
                      volume_modifier := vm, seek_to := st, play_track_at := pt,
                      show_osd := so, urls := us \<rparr>)
         | _ \<Rightarrow> None))"

definition Load :: "byte list \<Rightarrow> CommandlineOptions \<Rightarrow> CommandlineOptions option" where
  "Load serialized a = stream_in serialized a"

text \<open>
  What the wire format can carry: the sizes of a \<open>QList\<close> and of a \<open>QByteArray\<close> are
  \<open>int\<close>s, so they stay below \<open>2 ^ 31\<close> in every object the program can hold.
\<close>

definition representable :: "CommandlineOptions \<Rightarrow> bool" where
  "representable a \<longleftrightarrow>
     length (urls a) < 2 ^ 31 \<and> list_all (\<lambda>u. length u < 2 ^ 31) (urls a)"

section \<open>Reading back what was written\<close>

lemma be_roundtrip:
  "push_bit 24 (ucast (ucast (drop_bit 24 i) :: byte)) OR push_bit 16 (ucast (ucast (drop_bit 16 i) :: byte))
    OR push_bit 8 (ucast (ucast (drop_bit 8 i) :: byte)) OR ucast (ucast i :: byte) = (i :: qint32)"
proof (rule bit_word_eqI)
  fix n :: nat
  assume "n < LENGTH(32)"
  then have n: "n < 32" by simp
  consider "n < 8" | "8 \<le> n" "n < 16" | "16 \<le> n" "n < 24" | "24 \<le> n"
    by linarith
  then show "bit (push_bit 24 (ucast (ucast (drop_bit 24 i) :: byte)) OR push_bit 16 (ucast (ucast (drop_bit 16 i) :: byte))
    OR push_bit 8 (ucast (ucast (drop_bit 8 i) :: byte)) OR ucast (ucast i :: byte) :: qint32) n = bit i n"
    using n by cases (auto simp: bit_simps)
qed

lemma get_put_qint32 [simp]: "get_qint32 (put_qint32 i @ bs) = (i, bs)"
  by (simp add: put_qint32_def be_roundtrip)

lemma get_put_bool [simp]: "get_bool (put_bool b @ bs) = (b, bs)"
  by (simp add: put_bool_def)

lemma from_toEncoded [simp]: "fromEncoded (toEncoded u) = u"
  by (simp add: fromEncoded_def toEncoded_def unat_of_nat map_idI)

lemma length_toEncoded [simp]: "length (toEncoded u) = length u"
  by (simp add: toEncoded_def)

lemma get_put_QByteArray:
  assumes "length ba < 2 ^ 31"
  shows "get_QByteArray (put_QByteArray ba @ bs) = (ba, bs)"
proof -
  have u: "unat (of_nat (length ba) :: qint32) = length ba"
    using assms by (simp add: unat_of_nat)
  have "(of_nat (length ba) :: qint32) \<noteq> - 1"
  proof
    assume "(of_nat (length ba) :: qint32) = - 1"
    then have "unat (of_nat (length ba) :: qint32) = unat (- 1 :: qint32)" by simp
    with u assms show False by (simp add: unsigned_minus_1_eq_mask mask_eq_exp_minus_1)
  qed
  with u show ?thesis
    by (simp add: get_QByteArray_def put_QByteArray_def)
qed

lemma get_put_QUrl:
  "length u < 2 ^ 31 \<Longrightarrow> get_QUrl (put_QUrl u @ bs) = (u, bs)"
  by (simp add: get_QUrl_def put_QUrl_def get_put_QByteArray)

lemma put_QUrl_not_Nil: "put_QUrl u \<noteq> []"
  by (simp add: put_QUrl_def put_QByteArray_def put_qint32_def)

lemma get_elements_put:
  "list_all (\<lambda>u. length u < 2 ^ 31) us \<Longrightarrow>
   get_elements (length us) (concat (map put_QUrl us)) = (us, [])"
proof (induction us)
  case Nil
  then show ?case by simp
next
  case (Cons u us)
  then show ?case
    by (cases us) (simp_all add: get_put_QUrl put_QUrl_not_Nil get_put_QUrl [where bs = "[]", simplified])
qed

lemma PlayerAction_roundtrip [simp]:
  "PlayerAction_of_qint32 (qint32_of_PlayerAction p) = Some p"
  by (cases p) (simp_all add: PlayerAction_of_qint32_def)

lemma UrlListAction_roundtrip [simp]:
  "UrlListAction_of_qint32 (qint32_of_UrlListAction u) = Some u"
  by (cases u) (simp_all add: UrlListAction_of_qint32_def)

lemma get_put_QList_QUrl:
  assumes "length us < 2 ^ 31" and "list_all (\<lambda>u. length u < 2 ^ 31) us"
  shows "get_QList_QUrl (put_QList_QUrl us) = (us, [])"
proof -
  have "unat (of_nat (length us) :: qint32) = length us"
    using assms(1) by (simp add: unat_of_nat)
  then show ?thesis
    using assms(2) by (simp add: get_QList_QUrl_def put_QList_QUrl_def get_elements_put)
qed

text \<open>
  C1. Round trip: \<open>Load\<close> applied to the bytes of \<open>Serialize a\<close> overwrites every
  serialised member of the receiving object \<open>b\<close> with the value it has in \<open>a\<close>, so the
  result equals \<open>a\<close> field by field (\<open>player_action\<close>, \<open>url_list_action\<close>, \<open>set_volume\<close>,
  \<open>volume_modifier\<close>, \<open>seek_to\<close>, \<open>play_track_at\<close>, \<open>show_osd\<close>, \<open>urls\<close>), whatever the
  values are: sentinels, an empty list, or several URLs of either form.
\<close>

theorem Load_Serialize:
  assumes "representable a"
  shows "Load (Serialize a) b = Some a"
  using assms
  by (simp add: Load_def Serialize_def stream_in_def stream_out_def representable_def
      get_put_QList_QUrl)

theorem Load_Serialize_witness:
  "representable
     \<lparr> url_list_action = UrlList_Load, player_action = Player_Stop, set_volume = - 1,
       volume_modifier = - 4, seek_to = 30, play_track_at = - 1, show_osd = True,
       urls = [''file:///home/user/song.mp3'', ''http://example.com/x''] \<rparr>
   \<and> Load (Serialize
       \<lparr> url_list_action = UrlList_Load, player_action = Player_Stop, set_volume = - 1,
         volume_modifier = - 4, seek_to = 30, play_track_at = - 1, show_osd = True,
         urls = [''file:///home/user/song.mp3'', ''http://example.com/x''] \<rparr>)
       CommandlineOptions_init
     = Some
       \<lparr> url_list_action = UrlList_Load, player_action = Player_Stop, set_volume = - 1,
         volume_modifier = - 4, seek_to = 30, play_track_at = - 1, show_osd = True,
         urls = [''file:///home/user/song.mp3'', ''http://example.com/x''] \<rparr>
   \<and> representable CommandlineOptions_init
   \<and> Load (Serialize CommandlineOptions_init)
       \<lparr> url_list_action = UrlList_Load, player_action = Player_Stop, set_volume = 7,
         volume_modifier = 4, seek_to = 30, play_track_at = 2, show_osd = True,
         urls = [''http://example.com/x''] \<rparr>
     = Some CommandlineOptions_init"
proof -
  let ?a = "\<lparr> url_list_action = UrlList_Load, player_action = Player_Stop, set_volume = - 1,
       volume_modifier = - 4, seek_to = 30, play_track_at = - 1, show_osd = True,
       urls = [''file:///home/user/song.mp3'', ''http://example.com/x''] \<rparr>"
  have 1: "representable ?a"
    by (simp add: representable_def)
  have 2: "representable CommandlineOptions_init"
    by (simp add: representable_def CommandlineOptions_init_def)
  show ?thesis
    using 1 2 Load_Serialize [OF 1] Load_Serialize [OF 2] by simp
qed

section \<open>Emptiness\<close>

text \<open>
  C2. \<open>is_empty\<close> holds exactly when \<open>player_action\<close> is \<open>Player_None\<close>, \<open>set_volume\<close> is
  \<open>-1\<close>, \<open>volume_modifier\<close> is \<open>0\<close>, \<open>seek_to\<close> is \<open>-1\<close>, \<open>play_track_at\<close> is \<open>-1\<close>,
  \<open>show_osd\<close> is false and \<open>urls\<close> is empty; \<open>url_list_action\<close> has no influence on it.
\<close>

theorem is_empty_iff:
  "(is_empty a \<longleftrightarrow>
      player_action a = Player_None \<and> sint (set_volume a) = - 1 \<and> volume_modifier a = 0
      \<and> sint (seek_to a) = - 1 \<and> sint (play_track_at a) = - 1 \<and> show_osd a = False
      \<and> urls a = [])
   \<and> is_empty (a\<lparr> url_list_action := x \<rparr>) = is_empty a"
proof -
  have "sint w = - 1 \<longleftrightarrow> w = - 1" for w :: qint32
    using signed_word_eqI [of w "- 1", where ?'a = int] by auto
  then show ?thesis
    by (simp add: is_empty_def)
qed

section \<open>Properties of the scan\<close>

text \<open>
  A call that returns an option finds the same option, and leaves the same state, when
  more arguments stand behind those it was given.
\<close>

lemma short_option_append:
  assumes "short_option os d = (c, d1)" and "c \<noteq> question_mark" and "todo d \<noteq> []"
  shows "short_option os (d\<lparr> todo := todo d @ rest \<rparr>) = (c, d1\<lparr> todo := todo d1 @ rest \<rparr>)
         \<and> set (todo d1) \<subseteq> set (todo d) \<and> (nextchar d1 = [] \<or> todo d1 \<noteq> [])"
  using assms
  by (cases "todo d"; cases "drop 1 (todo d)")
     (auto simp: short_option_def advance_def Let_def
           split: list.splits option.splits if_splits)

lemma process_long_option_append:
  assumes "process_long_option lo d i = (c, d1, i1)" and "c \<noteq> question_mark" and "todo d \<noteq> []"
  shows "process_long_option lo (d\<lparr> todo := todo d @ rest \<rparr>) i = (c, d1\<lparr> todo := todo d1 @ rest \<rparr>, i1)
         \<and> set (todo d1) \<subseteq> set (todo d) \<and> nextchar d1 = []"
  using assms
  by (cases "todo d"; cases "drop 1 (todo d)")
     (auto simp: process_long_option_def advance_def Let_def
           split: list.splits option.splits if_splits lookup.splits prod.splits)

lemma takeWhile_append_stop:
  "dropWhile P xs = a # as \<Longrightarrow> takeWhile P (xs @ ys) = takeWhile P xs"
  by (induction xs) (auto split: if_splits)

lemma dropWhile_append_stop:
  "dropWhile P xs = a # as \<Longrightarrow> dropWhile P (xs @ ys) = a # as @ ys"
  by (induction xs) (auto split: if_splits)

lemma getopt_long_append:
  assumes "getopt_long os lo d i = (c, d1, i1)" and "c \<noteq> - 1" and "c \<noteq> question_mark"
    and "nextchar d = [] \<or> todo d \<noteq> []"
  shows "getopt_long os lo (d\<lparr> todo := todo d @ rest \<rparr>) i = (c, d1\<lparr> todo := todo d1 @ rest \<rparr>, i1)
         \<and> set (todo d1) \<subseteq> set (todo d) \<and> (nextchar d1 = [] \<or> todo d1 \<noteq> [])"
proof -
  obtain s n t x oa where d: "d = \<lparr> scanned = s, nonopts = n, todo = t, nextchar = x, optarg = oa \<rparr>"
    by (cases d)
  show ?thesis
  proof (cases "x = []")
    case False
    with assms(4) have t: "t \<noteq> []" by (simp add: d)
    from assms(1) False
    have "short_option os \<lparr> scanned = s, nonopts = n, todo = t, nextchar = x, optarg = None \<rparr> = (c, d1)"
      and i: "i1 = i"
      by (auto simp: getopt_long_def d split: prod.splits)
    from short_option_append [OF this(1) assms(3), of rest] t False i show ?thesis
      by (simp add: getopt_long_def d)
  next
    case True
    from assms True obtain a as where todo1: "dropWhile nonoption_p t = a # as"
      by (cases "dropWhile nonoption_p t") (auto simp: getopt_long_def Let_def d)
    have sub: "set (a # as) \<subseteq> set t"
      using set_dropWhileD [of _ nonoption_p t] todo1 by auto
    note app = takeWhile_append_stop [OF todo1, of rest] dropWhile_append_stop [OF todo1, of rest]
    from assms(1,2) True todo1 have ne: "a \<noteq> ''--''"
      by (auto simp: getopt_long_def Let_def d)
    show ?thesis
    proof (cases "take 1 (drop 1 a) = ''-''")
      case long: True
      have "process_long_option lo
          \<lparr> scanned = s, nonopts = n @ takeWhile nonoption_p t, todo = a # as,
            nextchar = drop 2 a, optarg = None \<rparr> i = (c, d1, i1)"
        using assms(1) True todo1 ne long by (simp add: getopt_long_def Let_def d)
      from process_long_option_append [OF this assms(3), of rest] sub
      show ?thesis
        using True ne long by (auto simp: getopt_long_def Let_def d app)
    next
      case short: False
      have "short_option os
          \<lparr> scanned = s, nonopts = n @ takeWhile nonoption_p t, todo = a # as,
            nextchar = drop 1 a, optarg = None \<rparr> = (c, d1)" and i: "i1 = i"
        using assms(1) True todo1 ne short
        by (auto simp: getopt_long_def Let_def d split: prod.splits)
      from short_option_append [OF this(1) assms(3), of rest] sub i
      show ?thesis
        using True ne short by (auto simp: getopt_long_def Let_def d app)
    qed
  qed
qed

lemma find_long_option_bound:
  "find_long_option lo nm = Found i \<Longrightarrow> i < length lo"
proof -
  have "i < length lo" if "filter P [0 ..< length lo] = i # js" for P js
  proof -
    from that have "i \<in> set (filter P [0 ..< length lo])" by simp
    then show ?thesis by simp
  qed
  then show "find_long_option lo nm = Found i \<Longrightarrow> i < length lo"
    by (auto simp: find_long_option_def exact_match_def abbreviations_def
        split: option.splits list.splits if_splits)
qed

lemma kOptions_val_pos: "i < length kOptions \<Longrightarrow> 0 < snd (snd (kOptions ! i))"
proof -
  have "\<forall>x \<in> set kOptions. 0 < snd (snd x)"
    by (simp add: kOptions_def VolumeUp_def VolumeDown_def SeekTo_def)
  then show "i < length kOptions \<Longrightarrow> 0 < snd (snd (kOptions ! i))"
    using nth_mem by blast
qed

lemma of_char_nonneg [simp]: "0 \<le> (of_char c :: int)"
  using of_nat_0_le_iff [of "of_char c", where ?'a = int] by (simp only: of_nat_of_char)

lemma short_option_nonneg: "short_option os d = (c, d1) \<Longrightarrow> 0 \<le> c"
  by (auto simp: short_option_def Let_def question_mark_def
      split: list.splits option.splits if_splits)

lemma process_long_option_kOptions_nonneg:
  assumes "process_long_option kOptions d i = (c, d1, i1)"
  shows "0 \<le> c"
proof (cases "find_long_option kOptions (takeWhile (\<lambda>c. c \<noteq> CHR ''='') (nextchar d))")
  case (Found j)
  then have "0 < snd (snd (kOptions ! j))"
    using find_long_option_bound kOptions_val_pos by blast
  with assms Found show ?thesis
    by (auto simp: process_long_option_def Let_def question_mark_def
        split: prod.splits if_splits list.splits)
qed (use assms in \<open>auto simp: process_long_option_def Let_def question_mark_def\<close>)

text \<open>The scan ends only on a state with no cluster in progress.\<close>

lemma getopt_long_end:
  assumes "getopt_long kOptstring kOptions d i = (- 1, d1, i1)" and "''--'' \<notin> set (todo d)"
  shows "nextchar d = [] \<and> list_all nonoption_p (todo d) \<and> i1 = i
         \<and> d1 = d\<lparr> optarg := None, nonopts := nonopts d @ todo d, todo := [] \<rparr>"
proof -
  obtain s n t x oa where d: "d = \<lparr> scanned = s, nonopts = n, todo = t, nextchar = x, optarg = oa \<rparr>"
    by (cases d)
  have x: "x = []"
  proof (rule ccontr)
    assume "x \<noteq> []"
    with assms(1) obtain e where "short_option kOptstring e = (- 1, d1)"
      by (auto simp: getopt_long_def d split: prod.splits)
    from short_option_nonneg [OF this] show False by simp
  qed
  have all: "dropWhile nonoption_p t = []"
  proof (cases "dropWhile nonoption_p t")
    case (Cons a as)
    then have "a \<in> set t"
      using set_dropWhileD [of a nonoption_p t] by simp
    with assms(2) have ne: "a \<noteq> ''--''" by (auto simp: d)
    show ?thesis
    proof (cases "take 1 (drop 1 a) = ''-''")
      case True
      with assms(1) x Cons ne obtain e where "process_long_option kOptions e i = (- 1, d1, i1)"
        by (auto simp: getopt_long_def d Let_def)
      from process_long_option_kOptions_nonneg [OF this] show ?thesis by simp
    next
      case False
      with assms(1) x Cons ne obtain e where "short_option kOptstring e = (- 1, d1)"
        by (auto simp: getopt_long_def d Let_def split: prod.splits)
      from short_option_nonneg [OF this] show ?thesis by simp
    qed
  qed
  then have "list_all nonoption_p t" and tw: "takeWhile nonoption_p t = t"
    by (simp_all add: list_all_iff dropWhile_eq_Nil_conv takeWhile_eq_all_conv)
  with assms(1) x all show ?thesis
    by (auto simp: getopt_long_def d Let_def)
qed

lemma getopt_long_nonoptions:
  assumes "nextchar d = []" and "list_all nonoption_p t"
  shows "getopt_long os lo (d\<lparr> todo := t @ rest \<rparr>) i
         = getopt_long os lo (d\<lparr> optarg := x, nonopts := nonopts d @ t, todo := rest \<rparr>) i"
proof -
  obtain s n t0 oa where d: "d = \<lparr> scanned = s, nonopts = n, todo = t0, nextchar = [], optarg = oa \<rparr>"
    using assms(1) by (cases d) simp
  from assms(2) have "takeWhile nonoption_p (t @ rest) = t @ takeWhile nonoption_p rest"
    and "dropWhile nonoption_p (t @ rest) = dropWhile nonoption_p rest"
    by (simp_all add: list_all_iff takeWhile_append2 dropWhile_append2)
  then show ?thesis
    by (simp add: getopt_long_def d)
qed

lemma Parse_loop_cong:
  assumes "getopt_long kOptstring kOptions d i = getopt_long kOptstring kOptions e j"
  shows "Parse_loop env d i a = Parse_loop env e j a"
  by (simp only: Parse_loop.simps [of env d i a] Parse_loop.simps [of env e j a] assms)

lemma switch_question_mark [simp]: "switch env question_mark arg a = Return_false [] a"
  by (simp add: switch_def question_mark_def VolumeUp_def VolumeDown_def SeekTo_def)

text \<open>
  Arguments that the loop accepts on their own are read in the same way when more
  arguments follow them.
\<close>

lemma Parse_loop_append:
  assumes "Parse_loop env d i a = End_of_options d' i' a'"
    and "''--'' \<notin> set (todo d)" and "nextchar d = [] \<or> todo d \<noteq> []"
  shows "Parse_loop env (d\<lparr> todo := todo d @ rest \<rparr>) i a = Parse_loop env (d'\<lparr> todo := rest \<rparr>) i' a'"
  using assms
proof (induction env d i a rule: Parse_loop.induct)
  case (1 env d i a)
  obtain c d1 i1 where g: "getopt_long kOptstring kOptions d i = (c, d1, i1)"
    by (cases "getopt_long kOptstring kOptions d i")
  show ?case
  proof (cases "c = - 1")
    case True
    with g "1.prems"(1) have e: "d' = d1" "i' = i1" "a' = a"
      by (simp_all add: Parse_loop.simps [of env d i a])
    from getopt_long_end [OF g [unfolded True] "1.prems"(2)]
    have n: "nextchar d = []" "list_all nonoption_p (todo d)" "i1 = i"
      and d1: "d1 = d\<lparr> optarg := None, nonopts := nonopts d @ todo d, todo := [] \<rparr>"
      by simp_all
    have "getopt_long kOptstring kOptions (d\<lparr> todo := todo d @ rest \<rparr>) i
        = getopt_long kOptstring kOptions (d1\<lparr> todo := rest \<rparr>) i"
      using getopt_long_nonoptions [OF n(1,2), of kOptstring kOptions rest i None]
      by (simp add: d1)
    from Parse_loop_cong [OF this] show ?thesis
      by (simp add: e n)
  next
    case False
    with g "1.prems"(1) obtain a1 where sw: "switch env c (optarg d1) a = Break a1"
      and rec: "Parse_loop env d1 i1 a1 = End_of_options d' i' a'"
      by (cases "switch env c (optarg d1) a") (simp_all add: Parse_loop.simps [of env d i a])
    from sw have q: "c \<noteq> question_mark" by auto
    from getopt_long_append [OF g False q "1.prems"(3), of rest]
    have g': "getopt_long kOptstring kOptions (d\<lparr> todo := todo d @ rest \<rparr>) i
        = (c, d1\<lparr> todo := todo d1 @ rest \<rparr>, i1)"
      and sub: "set (todo d1) \<subseteq> set (todo d)" and inv: "nextchar d1 = [] \<or> todo d1 \<noteq> []"
      by simp_all
    from sub "1.prems"(2) have "''--'' \<notin> set (todo d1)" by auto
    from "1.IH" [OF g [symmetric] refl False sw rec this inv]
    have "Parse_loop env (d1\<lparr> todo := todo d1 @ rest \<rparr>) i1 a1 = Parse_loop env (d'\<lparr> todo := rest \<rparr>) i' a'" .
    then show ?thesis
      using g' False sw by (simp add: Parse_loop.simps [of env "d\<lparr> todo := todo d @ rest \<rparr>" i a])
  qed
qed

text \<open>
  What a call of \<open>getopt_long\<close> reads of the scanner's state, and what \<open>Parse\<close> keeps of
  the way its loop was left. The option returned by a call, and so the run of the loop,
  depend on the arguments still to be read only: not on those already consumed, nor on
  \<open>option_index\<close>.
\<close>

definition view :: "getopt_data \<Rightarrow> string list \<times> string \<times> string option" where
  "view d = (todo d, nextchar d, optarg d)"

definition exit_view :: "loop_exit \<Rightarrow> string option \<times> CommandlineOptions" where
  "exit_view x = (case x of End_of_options d i a \<Rightarrow> (None, a) | Returned_false text a \<Rightarrow> (Some text, a))"

lemma short_option_view:
  assumes "view d = view e"
  shows "fst (short_option os d) = fst (short_option os e)
         \<and> view (snd (short_option os d)) = view (snd (short_option os e))"
  using assms
  by (cases d; cases e)
     (auto simp: short_option_def view_def advance_def Let_def
           split: list.splits option.splits)

lemma process_long_option_view:
  assumes "view d = view e"
  shows "fst (process_long_option lo d i) = fst (process_long_option lo e j)
         \<and> view (fst (snd (process_long_option lo d i))) = view (fst (snd (process_long_option lo e j)))"
  using assms
  by (cases d; cases e)
     (auto simp: process_long_option_def view_def advance_def Let_def
           split: list.splits option.splits lookup.splits prod.splits)

lemma getopt_long_view:
  assumes "todo d = todo e" and "nextchar d = nextchar e"
  shows "fst (getopt_long os lo d i) = fst (getopt_long os lo e j)
         \<and> view (fst (snd (getopt_long os lo d i))) = view (fst (snd (getopt_long os lo e j)))"
proof -
  obtain s n t x oa where d: "d = \<lparr> scanned = s, nonopts = n, todo = t, nextchar = x, optarg = oa \<rparr>"
    by (cases d)
  obtain s' n' oa' where e: "e = \<lparr> scanned = s', nonopts = n', todo = t, nextchar = x, optarg = oa' \<rparr>"
    using assms by (cases e) (simp add: d)
  show ?thesis
  proof (cases "x = []")
    case False
    then show ?thesis
      using short_option_view [of "\<lparr> scanned = s, nonopts = n, todo = t, nextchar = x, optarg = None \<rparr>"
          "\<lparr> scanned = s', nonopts = n', todo = t, nextchar = x, optarg = None \<rparr>" os]
      by (auto simp: getopt_long_def d e view_def split: prod.splits)
  next
    case True
    show ?thesis
    proof (cases "dropWhile nonoption_p t")
      case Nil
      with True show ?thesis
        by (simp add: getopt_long_def d e view_def Let_def del: dropWhile_eq_Nil_conv)
    next
      case (Cons a as)
      show ?thesis
        using True Cons
          short_option_view [of "\<lparr> scanned = s, nonopts = n @ takeWhile nonoption_p t, todo = a # as, nextchar = drop 1 a, optarg = None \<rparr>"
            "\<lparr> scanned = s', nonopts = n' @ takeWhile nonoption_p t, todo = a # as, nextchar = drop 1 a, optarg = None \<rparr>" os]
          process_long_option_view [of "\<lparr> scanned = s, nonopts = n @ takeWhile nonoption_p t, todo = a # as, nextchar = drop 2 a, optarg = None \<rparr>"
            "\<lparr> scanned = s', nonopts = n' @ takeWhile nonoption_p t, todo = a # as, nextchar = drop 2 a, optarg = None \<rparr>" lo i j]
        by (auto simp: getopt_long_def d e view_def Let_def split: prod.splits)
    qed
  qed
qed

lemma Parse_loop_view:
  assumes "todo d = todo e" and "nextchar d = nextchar e"
  shows "exit_view (Parse_loop env d i a) = exit_view (Parse_loop env e j a)"
  using assms
proof (induction env d i a arbitrary: e j rule: Parse_loop.induct)
  case (1 env d i a)
  obtain c d1 i1 where g: "getopt_long kOptstring kOptions d i = (c, d1, i1)"
    by (cases "getopt_long kOptstring kOptions d i")
  obtain c' e1 j1 where g': "getopt_long kOptstring kOptions e j = (c', e1, j1)"
    by (cases "getopt_long kOptstring kOptions e j")
  from getopt_long_view [OF "1.prems", of kOptstring kOptions i j] g g'
  have c: "c' = c" and v: "todo d1 = todo e1" "nextchar d1 = nextchar e1" "optarg d1 = optarg e1"
    by (simp_all add: view_def)
  show ?case
  proof (cases "c = - 1")
    case True
    with g g' c show ?thesis
      by (simp add: Parse_loop.simps [of env d i a] Parse_loop.simps [of env e j a] exit_view_def)
  next
    case False
    show ?thesis
    proof (cases "switch env c (optarg d1) a")
      case (Break a1)
      from "1.IH" [OF g [symmetric] refl False Break v(1,2), of j1]
      show ?thesis
        using g g' c v False Break
        by (simp add: Parse_loop.simps [of env d i a] Parse_loop.simps [of env e j a])
    next
      case (Return_false out a1)
      with g g' c v False show ?thesis
        by (simp add: Parse_loop.simps [of env d i a] Parse_loop.simps [of env e j a] exit_view_def)
    qed
  qed
qed

lemma switch_urls:
  "switch env c arg a = Break a' \<Longrightarrow> urls a' = urls a"
  "switch env c arg a = Return_false out a' \<Longrightarrow> a' = a"
  by (auto simp: switch_def split: if_splits)

lemma Parse_loop_urls:
  "Parse_loop env d i a = End_of_options d' i' a' \<Longrightarrow> urls a' = urls a"
  "Parse_loop env d i a = Returned_false out a' \<Longrightarrow> urls a' = urls a"
proof (induction env d i a rule: Parse_loop.induct)
  case (1 env d i a)
  {
    case 1
    then show ?case
      using "1.IH"(1)
      by (auto simp: Parse_loop.simps [of env d i a] dest: switch_urls
          split: prod.splits if_splits switch_exit.splits)
  next
    case 2
    then show ?case
      using "1.IH"(2)
      by (auto simp: Parse_loop.simps [of env d i a] dest: switch_urls
          split: prod.splits if_splits switch_exit.splits)
  }
qed

lemma append_urls_eq:
  "append_urls env vs a = a\<lparr> urls := urls a @ map (url_of_argument env) vs \<rparr>"
  by (induction vs arbitrary: a) simp_all

lemma getopt_long_end_nextchar:
  assumes "getopt_long kOptstring kOptions d i = (- 1, d1, i1)"
  shows "nextchar d1 = []"
proof -
  obtain s n t x oa where d: "d = \<lparr> scanned = s, nonopts = n, todo = t, nextchar = x, optarg = oa \<rparr>"
    by (cases d)
  have x: "x = []"
  proof (rule ccontr)
    assume "x \<noteq> []"
    with assms(1) obtain e where "short_option kOptstring e = (- 1, d1)"
      by (auto simp: getopt_long_def d split: prod.splits)
    from short_option_nonneg [OF this] show False by simp
  qed
  show ?thesis
  proof (cases "dropWhile nonoption_p t")
    case Nil
    with assms x show ?thesis
      by (auto simp: getopt_long_def d Let_def simp del: dropWhile_eq_Nil_conv)
  next
    case (Cons a as)
    show ?thesis
    proof (cases "a = ''--''")
      case True
      with assms x Cons show ?thesis
        by (auto simp: getopt_long_def d Let_def)
    next
      case ne: False
      show ?thesis
      proof (cases "take 1 (drop 1 a) = ''-''")
        case True
        with assms(1) x Cons ne obtain e where "process_long_option kOptions e i = (- 1, d1, i1)"
          by (auto simp: getopt_long_def d Let_def)
        from process_long_option_kOptions_nonneg [OF this] show ?thesis by simp
      next
        case False
        with assms(1) x Cons ne obtain e where "short_option kOptstring e = (- 1, d1)"
          by (auto simp: getopt_long_def d Let_def split: prod.splits)
        from short_option_nonneg [OF this] show ?thesis by simp
      qed
    qed
  qed
qed

lemma Parse_loop_end_nextchar:
  "Parse_loop env d i a = End_of_options d' i' a' \<Longrightarrow> nextchar d' = []"
proof (induction env d i a rule: Parse_loop.induct)
  case (1 env d i a)
  obtain c d1 i1 where g: "getopt_long kOptstring kOptions d i = (c, d1, i1)"
    by (cases "getopt_long kOptstring kOptions d i")
  show ?case
  proof (cases "c = - 1")
    case True
    with g "1.prems" getopt_long_end_nextchar [of d i d1 i1] show ?thesis
      by (simp add: Parse_loop.simps [of env d i a])
  next
    case False
    with g "1.prems" "1.IH" [OF g [symmetric] refl False] show ?thesis
      by (auto simp: Parse_loop.simps [of env d i a] split: switch_exit.splits)
  qed
qed

text \<open>Two results of \<open>Parse\<close> that differ at most in the URLs collected.\<close>

definition same_but_urls :: "Parse_result \<Rightarrow> Parse_result \<Rightarrow> bool" where
  "same_but_urls r r' \<longleftrightarrow>
     returned r = returned r' \<and> cout r = cout r'
     \<and> (object r)\<lparr> urls := [] \<rparr> = (object r')\<lparr> urls := [] \<rparr>"

lemma same_but_urlsI:
  assumes "exit_view (Parse_loop env (getopt_start argv) 0 a)
           = exit_view (Parse_loop env (getopt_start argv') 0 a')"
  shows "same_but_urls (Parse env argv a) (Parse env argv' a')"
  using assms
  by (cases "Parse_loop env (getopt_start argv) 0 a"; cases "Parse_loop env (getopt_start argv') 0 a'")
     (simp_all add: Parse_def exit_view_def same_but_urls_def append_urls_eq)

text \<open>What the loop has done when \<open>Parse\<close> accepts a list of arguments.\<close>

lemma accepted:
  assumes "returned (Parse env (prog # pre) a)" and "''--'' \<notin> set pre"
  shows "\<exists>d' i'.
      Parse_loop env (getopt_start (prog # pre)) 0 a
        = End_of_options d' i' ((object (Parse env (prog # pre) a))\<lparr> urls := urls a \<rparr>)
      \<and> nextchar d' = []
      \<and> (\<forall>rest. Parse_loop env (getopt_start (prog # pre @ rest)) 0 a
            = Parse_loop env (d'\<lparr> todo := rest \<rparr>) i'
                ((object (Parse env (prog # pre) a))\<lparr> urls := urls a \<rparr>))"
proof -
  from assms(1) obtain d' i' a' where
    l: "Parse_loop env (getopt_start (prog # pre)) 0 a = End_of_options d' i' a'"
    by (cases "Parse_loop env (getopt_start (prog # pre)) 0 a") (simp_all add: Parse_def)
  from Parse_loop_urls(1) [OF l] have "a' = (object (Parse env (prog # pre) a))\<lparr> urls := urls a \<rparr>"
    by (simp add: Parse_def l append_urls_eq)
  moreover have "Parse_loop env (getopt_start (prog # pre @ rest)) 0 a = Parse_loop env (d'\<lparr> todo := rest \<rparr>) i' a'" for rest
    using Parse_loop_append [OF l, of rest] assms(2) by (simp add: getopt_start_def)
  ultimately show ?thesis
    using l Parse_loop_end_nextchar [OF l] by auto
qed

text \<open>
  An argument that \<open>getopt_long\<close> rejects where it stands: a long option whose name matches
  no entry of the table, or more than one, or a short option character that the option
  string does not list.
\<close>

definition unrecognized :: "string \<Rightarrow> bool" where
  "unrecognized f =
     (case f of
        c0 # c1 # cs \<Rightarrow>
          c0 = CHR ''-'' \<and>
          (if c1 = CHR ''-'' then
             cs \<noteq> [] \<and>
             (case find_long_option kOptions (takeWhile (\<lambda>c. c \<noteq> CHR ''='') cs) of
                Found i \<Rightarrow> False | Ambiguous \<Rightarrow> True | Unrecognized \<Rightarrow> True)
           else strchr kOptstring c1 = None \<or> c1 = CHR '':'')
      | _ \<Rightarrow> False)"

lemmas getopt_eval = getopt_long_def short_option_def process_long_option_def
  find_long_option_def exact_match_def abbreviations_def advance_def nonoption_p_def
  kOptions_def kOptstring_def Let_def upt_rec

lemmas switch_eval = switch_def question_mark_def VolumeUp_def VolumeDown_def SeekTo_def

lemma question_mark_not_end [simp]: "question_mark \<noteq> - 1"
  by (simp add: question_mark_def)

lemmas Parse_loop_eval = Parse_loop.simps getopt_eval switch_eval

lemma Parse_loop_help:
  assumes "nextchar e = []" and "h = ''-h'' \<or> h = ''--help''"
  shows "Parse_loop env (e\<lparr> todo := h # post \<rparr>) i a = Returned_false (translated_help_text env) a"
proof -
  obtain s n t oa where e: "e = \<lparr> scanned = s, nonopts = n, todo = t, nextchar = [], optarg = oa \<rparr>"
    using assms(1) by (cases e) simp
  have "\<forall>h \<in> set [''-h'', ''--help''].
      Parse_loop env \<lparr> scanned = s, nonopts = n, todo = h # post, nextchar = [], optarg = oa \<rparr> i a
        = Returned_false (translated_help_text env) a"
    by (simp add: Parse_loop_eval)
  with assms(2) show ?thesis
    by (auto simp: e)
qed

lemma Parse_loop_unrecognized:
  assumes "nextchar e = []" and "unrecognized f"
  shows "Parse_loop env (e\<lparr> todo := f # post \<rparr>) i a = Returned_false [] a"
proof -
  obtain s n t oa where e: "e = \<lparr> scanned = s, nonopts = n, todo = t, nextchar = [], optarg = oa \<rparr>"
    using assms(1) by (cases e) simp
  from assms(2) obtain c1 cs where f: "f = CHR ''-'' # c1 # cs"
    by (auto simp: unrecognized_def split: list.splits)
  show ?thesis
  proof (cases "c1 = CHR ''-''")
    case True
    with assms(2) f have "cs \<noteq> []"
      and "find_long_option kOptions (takeWhile (\<lambda>c. c \<noteq> CHR ''='') cs) = Ambiguous
           \<or> find_long_option kOptions (takeWhile (\<lambda>c. c \<noteq> CHR ''='') cs) = Unrecognized"
      by (auto simp: unrecognized_def split: lookup.splits)
    with True show ?thesis
      by (subst Parse_loop.simps)
         (auto simp: e f getopt_long_def process_long_option_def nonoption_p_def Let_def)
  next
    case False
    with assms(2) f have "strchr kOptstring c1 = None \<or> c1 = CHR '':''"
      by (simp add: unrecognized_def)
    with False show ?thesis
      by (subst Parse_loop.simps)
         (auto simp: e f getopt_long_def short_option_def nonoption_p_def Let_def
               split: option.splits)
  qed
qed

section \<open>An environment for the examples\<close>

text \<open>
  A help text, a \<open>toInt\<close> that reads plain decimal numerals that fit an \<open>int\<close>, and a
  current directory \<open>/home/user\<close>.
\<close>

fun digits :: "string \<Rightarrow> nat \<Rightarrow> nat option" where
  "digits [] acc = Some acc"
| "digits (c # cs) acc =
     (if 48 \<le> (of_char c :: nat) \<and> (of_char c :: nat) \<le> 57
      then digits cs (10 * acc + (of_char c - 48)) else None)"

definition example_toInt :: "string \<Rightarrow> qint32 option" where
  "example_toInt s =
     (if s = [] then None
      else case digits s 0 of
             None \<Rightarrow> None
           | Some n \<Rightarrow> if n < 2 ^ 31 then Some (of_nat n) else None)"

definition example_env :: qt_env where
  "example_env =
     \<lparr> translated_help_text = ''Usage: clementine [options] [URL(s)]'',
       toInt = example_toInt,
       absoluteFilePath = (\<lambda>p. if take 1 p = ''/'' then p else ''/home/user/'' @ p) \<rparr>"

lemmas Parse_eval = Parse_def Parse_loop_eval getopt_start_def argv_of_def url_of_argument_def
  fromLocalFile_def CommandlineOptions_init_def toInt_or_minus_one_def

section \<open>Help\<close>

text \<open>
  C3, as amended. When \<open>-h\<close> or \<open>--help\<close> stands behind arguments \<open>pre\<close> that \<open>Parse\<close>
  accepts on their own (flags, their values, non-options; no \<open>--\<close>), then whatever
  follows it, \<open>Parse\<close> writes the help text and returns \<open>false\<close>. Nothing behind the help
  flag has an effect: the result does not depend on \<open>post\<close>. The flags before it have been
  applied to the object by then, and no URL has been collected. With nothing before it
  the object is left as it was, so \<open>["-h", "-p"]\<close> never yields \<open>Play\<close>.
\<close>

theorem help_short_circuit:
  assumes "returned (Parse env (prog # pre) a)" and "''--'' \<notin> set pre"
    and "h = ''-h'' \<or> h = ''--help''"
  shows "Parse env (prog # pre @ h # post) a =
           \<lparr> returned = False,
             object = (object (Parse env (prog # pre) a))\<lparr> urls := urls a \<rparr>,
             cout = translated_help_text env \<rparr>"
proof -
  from accepted [OF assms(1,2)] obtain d' i' where
    "Parse_loop env (getopt_start (prog # pre)) 0 a
       = End_of_options d' i' ((object (Parse env (prog # pre) a))\<lparr> urls := urls a \<rparr>)"
    and "nextchar d' = []"
    and "\<And>rest. Parse_loop env (getopt_start (prog # pre @ rest)) 0 a
          = Parse_loop env (d'\<lparr> todo := rest \<rparr>) i' ((object (Parse env (prog # pre) a))\<lparr> urls := urls a \<rparr>)"
    by blast
  with Parse_loop_help [OF _ assms(3)] show ?thesis
    by (simp add: Parse_def)
qed

theorem help_short_circuit_witness:
  "returned (Parse example_env [''clementine'', ''-p''] CommandlineOptions_init)
   \<and> ''--'' \<notin> set [''-p'']
   \<and> Parse example_env [''clementine'', ''-p'', ''--help'', ''-s''] CommandlineOptions_init
       = \<lparr> returned = False,
           object = CommandlineOptions_init\<lparr> player_action := Player_Play \<rparr>,
           cout = ''Usage: clementine [options] [URL(s)]'' \<rparr>
   \<and> returned (Parse example_env [''clementine''] CommandlineOptions_init)
   \<and> Parse example_env [''clementine'', ''-h'', ''-p''] CommandlineOptions_init
       = \<lparr> returned = False, object = CommandlineOptions_init,
           cout = ''Usage: clementine [options] [URL(s)]'' \<rparr>"
proof -
  have 1: "returned (Parse example_env [''clementine'', ''-p''] CommandlineOptions_init)"
    by (simp add: Parse_eval)
  have 2: "returned (Parse example_env [''clementine''] CommandlineOptions_init)"
    by (simp add: Parse_eval)
  have 3: "object (Parse example_env [''clementine'', ''-p''] CommandlineOptions_init)
             \<lparr> urls := urls CommandlineOptions_init \<rparr>
           = CommandlineOptions_init\<lparr> player_action := Player_Play \<rparr>"
    by (simp add: Parse_eval)
  have 4: "object (Parse example_env [''clementine''] CommandlineOptions_init)
             \<lparr> urls := urls CommandlineOptions_init \<rparr>
           = CommandlineOptions_init"
    by (simp add: Parse_eval)
  have 5: "translated_help_text example_env = ''Usage: clementine [options] [URL(s)]''"
    by (simp add: example_env_def)
  show ?thesis
    using 1 2
      help_short_circuit [OF 1, of "''--help''" "[''-s'']"]
      help_short_circuit [OF 2, of "''-h''" "[''-p'']"]
    by (simp add: 3 4 5)
qed

text \<open>
  The claim as stated fails where an unrecognized flag stands before the help flag: the
  loop returns at the unrecognized flag, and no help text is written. And a flag before
  the help flag is in the object when \<open>Parse\<close> returns.
\<close>

theorem help_counterexample:
  "cout (Parse example_env [''clementine'', ''--not-a-flag'', ''-h''] CommandlineOptions_init) = []
   \<and> translated_help_text example_env \<noteq> []
   \<and> player_action (object (Parse example_env [''clementine'', ''-p'', ''-h''] CommandlineOptions_init))
       = Player_Play"
  by (simp add: Parse_eval example_env_def)

section \<open>Errors\<close>

text \<open>
  The answer at which the loop of \<open>Parse\<close> stops: the first of \<open>-1\<close>, \<open>'?'\<close> and \<open>'h'\<close>
  among the answers of the successive calls of \<open>getopt_long\<close>. \<open>-1\<close> is the end of the
  options, \<open>'?'\<close> is the answer for an argument that the library rejects, and \<open>'h'\<close> is
  the value of the help flag.
\<close>

function scan_stop :: "getopt_data \<Rightarrow> nat \<Rightarrow> int" where
  "scan_stop d longind =
     (case getopt_long kOptstring kOptions d longind of
        (c, d', longind') \<Rightarrow>
          if c = - 1 \<or> c = question_mark \<or> c = of_char CHR ''h'' then c
          else scan_stop d' longind')"
  by pat_completeness auto
termination
  by (relation "measure (\<lambda>(d, longind). pending d)")
     (auto dest: getopt_long_pending [OF sym])

declare scan_stop.simps [simp del]

text \<open>
  The values of the flags whose case in the \<open>switch\<close> ends in \<open>break\<close>. With this option
  string and this table \<open>getopt_long\<close> has no other answer than these, \<open>-1\<close>, \<open>'?'\<close> and
  \<open>'h'\<close>.
\<close>

definition handled :: "int \<Rightarrow> bool" where
  "handled c \<longleftrightarrow>
     c \<in> set (map of_char ''ptusrfvalko'' @ [VolumeUp, VolumeDown, SeekTo])"

lemma strchr_Some: "strchr s c = Some t \<Longrightarrow> c \<in> set s"
  by (induction s) (auto split: if_splits)

lemma short_option_values:
  assumes "short_option kOptstring d = (c, d1)"
  shows "c = question_mark \<or> c = of_char CHR ''h'' \<or> handled c"
proof -
  have "x = CHR '':'' \<or> of_char x = (of_char CHR ''h'' :: int) \<or> handled (of_char x)"
    if "strchr kOptstring x = Some t" for x t
    using strchr_Some [OF that] by (auto simp: kOptstring_def handled_def)
  with assms show ?thesis
    by (auto simp: short_option_def Let_def split: list.splits option.splits if_splits)
qed

lemma process_long_option_values:
  assumes "process_long_option kOptions d i = (c, d1, i1)"
  shows "c = question_mark \<or> c = of_char CHR ''h'' \<or> handled c"
proof (cases "find_long_option kOptions (takeWhile (\<lambda>c. c \<noteq> CHR ''='') (nextchar d))")
  case (Found j)
  have "\<forall>x \<in> set kOptions. snd (snd x) = of_char CHR ''h'' \<or> handled (snd (snd x))"
    by (simp add: kOptions_def handled_def)
  with find_long_option_bound [OF Found]
  have "snd (snd (kOptions ! j)) = of_char CHR ''h'' \<or> handled (snd (snd (kOptions ! j)))"
    using nth_mem by blast
  with assms Found show ?thesis
    by (auto simp: process_long_option_def Let_def split: prod.splits if_splits list.splits)
qed (use assms in \<open>auto simp: process_long_option_def Let_def\<close>)

lemma getopt_long_values:
  assumes "getopt_long kOptstring kOptions d i = (c, d1, i1)"
  shows "c = - 1 \<or> c = question_mark \<or> c = of_char CHR ''h'' \<or> handled c"
  using assms short_option_values process_long_option_values
  by (auto simp: getopt_long_def Let_def split: if_splits prod.splits list.splits)

lemma switch_handled:
  assumes "handled c"
  shows "\<exists>a1. switch env c arg a = Break a1"
  using assms by (auto simp: handled_def switch_def VolumeUp_def VolumeDown_def SeekTo_def)

lemma Parse_loop_scan_stop:
  "(scan_stop d i = - 1 \<longrightarrow> (\<exists>d' i' a'. Parse_loop env d i a = End_of_options d' i' a'))
   \<and> (scan_stop d i = question_mark \<longrightarrow> (\<exists>a'. Parse_loop env d i a = Returned_false [] a'))
   \<and> (scan_stop d i = of_char CHR ''h''
        \<longrightarrow> (\<exists>a'. Parse_loop env d i a = Returned_false (translated_help_text env) a'))
   \<and> (scan_stop d i = - 1 \<or> scan_stop d i = question_mark \<or> scan_stop d i = of_char CHR ''h'')"
proof (induction env d i a rule: Parse_loop.induct)
  case (1 env d i a)
  obtain c d1 i1 where g: "getopt_long kOptstring kOptions d i = (c, d1, i1)"
    by (cases "getopt_long kOptstring kOptions d i")
  have ne: "question_mark \<noteq> of_char CHR ''h''" "(of_char CHR ''h'' :: int) \<noteq> - 1"
    by (simp_all add: question_mark_def)
  show ?case
  proof (cases "c = - 1 \<or> c = question_mark \<or> c = of_char CHR ''h''")
    case True
    then have st: "scan_stop d i = c"
      using g by (simp add: scan_stop.simps [of d i])
    have sh: "switch env (of_char CHR ''h'') arg a = Return_false (translated_help_text env) a" for arg
      by (simp add: switch_def)
    have l: "Parse_loop env d i a =
        (if c = - 1 then End_of_options d1 i1 a
         else case switch env c (optarg d1) a of
                Break a' \<Rightarrow> Parse_loop env d1 i1 a'
              | Return_false out a' \<Rightarrow> Returned_false out a')"
      using g by (simp add: Parse_loop.simps [of env d i a])
    from True consider "c = - 1" | "c = question_mark" | "c = of_char CHR ''h''"
      by blast
    then show ?thesis
    proof cases
      case 1
      with st l show ?thesis by (simp add: question_mark_def)
    next
      case 2
      with st l ne show ?thesis by simp
    next
      case 3
      with st l ne sh show ?thesis by (simp add: question_mark_def)
    qed
  next
    case False
    with getopt_long_values [OF g] have "handled c" by simp
    then obtain a1 where sw: "switch env c (optarg d1) a = Break a1"
      using switch_handled by blast
    from False g have s: "scan_stop d i = scan_stop d1 i1"
      by (simp add: scan_stop.simps [of d i])
    from False g sw have p: "Parse_loop env d i a = Parse_loop env d1 i1 a1"
      by (simp add: Parse_loop.simps [of env d i a])
    from False have "c \<noteq> - 1" by simp
    from "1.IH" [OF g [symmetric] refl this sw] show ?thesis
      unfolding s p .
  qed
qed

lemma returned_iff_scan_stop:
  "returned (Parse env argv a) \<longleftrightarrow> scan_stop (getopt_start argv) 0 = - 1"
proof -
  have ne: "question_mark \<noteq> - 1" "(of_char CHR ''h'' :: int) \<noteq> - 1"
    by (simp_all add: question_mark_def)
  from Parse_loop_scan_stop [of "getopt_start argv" 0 env a] ne show ?thesis
    by (auto simp: Parse_def)
qed

lemma Parse_loop_missing_argument:
  assumes "nextchar e = []"
    and "f \<in> set [''-v'', ''--volume'', ''--seek-to'', ''-k'', ''--play-track'']"
  shows "Parse_loop env (e\<lparr> todo := [f] \<rparr>) i a = Returned_false [] a"
proof -
  obtain s n t oa where e: "e = \<lparr> scanned = s, nonopts = n, todo = t, nextchar = [], optarg = oa \<rparr>"
    using assms(1) by (cases e) simp
  have "\<forall>f \<in> set [''-v'', ''--volume'', ''--seek-to'', ''-k'', ''--play-track''].
      Parse_loop env \<lparr> scanned = s, nonopts = n, todo = [f], nextchar = [], optarg = oa \<rparr> i a
        = Returned_false [] a"
    by (simp add: Parse_loop_eval)
  with assms(2) show ?thesis
    unfolding e by auto
qed

lemma scan_stop_rejected:
  assumes "returned (Parse env (prog # pre) a)" and "''--'' \<notin> set pre"
    and "unrecognized f
         \<or> (f \<in> set [''-v'', ''--volume'', ''--seek-to'', ''-k'', ''--play-track''] \<and> post = [])"
  shows "scan_stop (getopt_start (prog # pre @ f # post)) 0 = question_mark"
proof -
  define env' where "env' = env\<lparr> translated_help_text := ''h'' \<rparr>"
  have "returned (Parse env' (prog # pre) a)"
    using assms(1) by (simp add: returned_iff_scan_stop)
  from accepted [OF this assms(2)] obtain d' i' b where n: "nextchar d' = []"
    and l: "\<And>rest. Parse_loop env' (getopt_start (prog # pre @ rest)) 0 a
          = Parse_loop env' (d'\<lparr> todo := rest \<rparr>) i' b"
    by blast
  from assms(3) have "Parse_loop env' (getopt_start (prog # pre @ f # post)) 0 a = Returned_false [] b"
    using Parse_loop_unrecognized [OF n] Parse_loop_missing_argument [OF n] l by auto
  moreover have "translated_help_text env' \<noteq> []"
    by (simp add: env'_def)
  ultimately show ?thesis
    using Parse_loop_scan_stop [of "getopt_start (prog # pre @ f # post)" 0 env' a]
    by auto
qed

text \<open>
  C4, as amended. Whatever the arguments and whatever the object held, the scan of
  \<open>Parse\<close> stops at one of three answers. When it stops at an argument that \<open>getopt_long\<close>
  rejects (answer \<open>'?'\<close>), \<open>Parse\<close> returns \<open>false\<close>, has written nothing to \<open>std::cout\<close> and
  has collected no URL. When it stops at a help flag (answer \<open>'h'\<close>), \<open>Parse\<close> returns the
  same value \<open>false\<close>, after writing the help text. When it reaches the end of the options
  (answer \<open>-1\<close>), \<open>Parse\<close> returns \<open>true\<close>. So the returned value does not tell a rejected
  argument from a request for help.

  Among the arguments at which the scan stops with \<open>'?'\<close> are, behind arguments \<open>pre\<close> that
  \<open>Parse\<close> accepts on their own (no \<open>--\<close> among them): an unrecognized flag, whatever
  follows it, and a flag that requires a value (\<open>-v\<close>, \<open>--volume\<close>, \<open>--seek-to\<close>, \<open>-k\<close>,
  \<open>--play-track\<close>) when it stands last. What the library prints on the standard error
  stream is outside the model.
\<close>

theorem error_returns_false:
  "(scan_stop (getopt_start argv) 0 = question_mark \<longrightarrow>
      returned (Parse env argv a) = False \<and> cout (Parse env argv a) = []
      \<and> urls (object (Parse env argv a)) = urls a)
   \<and> (scan_stop (getopt_start argv) 0 = of_char CHR ''h'' \<longrightarrow>
      returned (Parse env argv a) = False \<and> cout (Parse env argv a) = translated_help_text env
      \<and> urls (object (Parse env argv a)) = urls a)
   \<and> (scan_stop (getopt_start argv) 0 = - 1 \<longrightarrow>
      returned (Parse env argv a) = True \<and> cout (Parse env argv a) = [])
   \<and> (scan_stop (getopt_start argv) 0 = question_mark
      \<or> scan_stop (getopt_start argv) 0 = of_char CHR ''h''
      \<or> scan_stop (getopt_start argv) 0 = - 1)
   \<and> (returned (Parse env (prog # pre) a) \<and> ''--'' \<notin> set pre
        \<and> (unrecognized f
            \<or> (f \<in> set [''-v'', ''--volume'', ''--seek-to'', ''-k'', ''--play-track'']
                \<and> post = []))
       \<longrightarrow> scan_stop (getopt_start (prog # pre @ f # post)) 0 = question_mark)"
proof -
  have "(scan_stop (getopt_start argv) 0 = question_mark \<longrightarrow>
      returned (Parse env argv a) = False \<and> cout (Parse env argv a) = []
      \<and> urls (object (Parse env argv a)) = urls a)
   \<and> (scan_stop (getopt_start argv) 0 = of_char CHR ''h'' \<longrightarrow>
      returned (Parse env argv a) = False \<and> cout (Parse env argv a) = translated_help_text env
      \<and> urls (object (Parse env argv a)) = urls a)
   \<and> (scan_stop (getopt_start argv) 0 = - 1 \<longrightarrow>
      returned (Parse env argv a) = True \<and> cout (Parse env argv a) = [])
   \<and> (scan_stop (getopt_start argv) 0 = question_mark
      \<or> scan_stop (getopt_start argv) 0 = of_char CHR ''h''
      \<or> scan_stop (getopt_start argv) 0 = - 1)"
    using Parse_loop_scan_stop [of "getopt_start argv" 0 env a]
      Parse_loop_urls(2) [of env "getopt_start argv" 0 a]
    by (auto simp: Parse_def)
  with scan_stop_rejected [of env prog pre a f post] show ?thesis
    by blast
qed

text \<open>
  Rejected are also a short flag that is not in the option string behind one that is
  (the \<open>z\<close> of \<open>-pz\<close>), an abbreviation of more than one name (\<open>--p\<close>), a flag that requires
  a value at the end of a group or abbreviated (the \<open>v\<close> of \<open>-pv\<close>, \<open>--seek\<close>) and a
  value given to a flag that takes none (\<open>--play=1\<close>). Behind a help flag, or behind
  \<open>--\<close>, \<open>--not-a-flag\<close> is not rejected, and \<open>--sh\<close> is accepted as an abbreviation of
  \<open>--show-osd\<close>.
\<close>

lemmas scan_stop_eval = scan_stop.simps getopt_start_def getopt_eval question_mark_def
  VolumeUp_def VolumeDown_def SeekTo_def

theorem error_returns_false_witness:
  "scan_stop (getopt_start [''clementine'', ''--not-a-flag'']) 0 = question_mark
   \<and> returned (Parse example_env [''clementine'', ''--not-a-flag''] CommandlineOptions_init) = False
   \<and> cout (Parse example_env [''clementine'', ''--not-a-flag''] CommandlineOptions_init) = []
   \<and> urls (object (Parse example_env [''clementine'', ''--not-a-flag''] CommandlineOptions_init)) = []
   \<and> scan_stop (getopt_start [''clementine'', ''-pv'']) 0 = question_mark
   \<and> returned (Parse example_env [''clementine'', ''-pv''] CommandlineOptions_init) = False
   \<and> scan_stop (getopt_start [''clementine'', ''-pz'', ''-s'']) 0 = question_mark
   \<and> returned (Parse example_env [''clementine'', ''-pz'', ''-s''] CommandlineOptions_init) = False
   \<and> scan_stop (getopt_start [''clementine'', ''--seek'']) 0 = question_mark
   \<and> returned (Parse example_env [''clementine'', ''--seek''] CommandlineOptions_init) = False
   \<and> scan_stop (getopt_start [''clementine'', ''--play=1'']) 0 = question_mark
   \<and> returned (Parse example_env [''clementine'', ''--play=1''] CommandlineOptions_init) = False
   \<and> scan_stop (getopt_start [''clementine'', ''--p'']) 0 = question_mark
   \<and> returned (Parse example_env [''clementine'', ''--p''] CommandlineOptions_init) = False
   \<and> scan_stop (getopt_start [''clementine'', ''-p'', ''-h'', ''--not-a-flag'']) 0 = of_char CHR ''h''
   \<and> returned (Parse example_env [''clementine'', ''-p'', ''-h'', ''--not-a-flag'']
        CommandlineOptions_init) = False
   \<and> cout (Parse example_env [''clementine'', ''-p'', ''-h'', ''--not-a-flag'']
        CommandlineOptions_init) = ''Usage: clementine [options] [URL(s)]''
   \<and> scan_stop (getopt_start [''clementine'', ''--'', ''--not-a-flag'']) 0 = - 1
   \<and> returned (Parse example_env [''clementine'', ''--'', ''--not-a-flag'']
        CommandlineOptions_init) = True
   \<and> scan_stop (getopt_start [''clementine'', ''--sh'', ''-v'', ''5'']) 0 = - 1
   \<and> returned (Parse example_env [''clementine'', ''--sh'', ''-v'', ''5'']
        CommandlineOptions_init) = True
   \<and> returned (Parse example_env [''clementine'', ''-p''] CommandlineOptions_init)
   \<and> ''--'' \<notin> set [''-p'']
   \<and> unrecognized ''--not-a-flag''
   \<and> scan_stop (getopt_start [''clementine'', ''-p'', ''--not-a-flag'', ''-s'']) 0 = question_mark
   \<and> returned (Parse example_env [''clementine'', ''-p'', ''--not-a-flag'', ''-s'']
        CommandlineOptions_init) = False
   \<and> ''--volume'' \<in> set [''-v'', ''--volume'', ''--seek-to'', ''-k'', ''--play-track'']
   \<and> scan_stop (getopt_start [''clementine'', ''-p'', ''--volume'']) 0 = question_mark
   \<and> returned (Parse example_env [''clementine'', ''-p'', ''--volume''] CommandlineOptions_init) = False"
proof -
  have 1: "scan_stop (getopt_start [''clementine'', ''--not-a-flag'']) 0 = question_mark"
    by (simp add: scan_stop_eval)
  have 3: "scan_stop (getopt_start [''clementine'', ''-pv'']) 0 = question_mark"
    by (simp add: scan_stop_eval)
  have 4: "scan_stop (getopt_start [''clementine'', ''-pz'', ''-s'']) 0 = question_mark"
    by (simp add: scan_stop_eval)
  have 5: "scan_stop (getopt_start [''clementine'', ''--seek'']) 0 = question_mark"
    by (simp add: scan_stop_eval)
  have 6: "scan_stop (getopt_start [''clementine'', ''--play=1'']) 0 = question_mark"
    by (simp add: scan_stop_eval)
  have 7: "scan_stop (getopt_start [''clementine'', ''--p'']) 0 = question_mark"
    by (simp add: scan_stop_eval)
  have 8: "scan_stop (getopt_start [''clementine'', ''-p'', ''-h'', ''--not-a-flag'']) 0 = of_char CHR ''h''"
    by (simp add: scan_stop_eval)
  have 9: "scan_stop (getopt_start [''clementine'', ''--'', ''--not-a-flag'']) 0 = - 1"
    by (simp add: scan_stop_eval)
  have 10: "scan_stop (getopt_start [''clementine'', ''--sh'', ''-v'', ''5'']) 0 = - 1"
    by (simp add: scan_stop_eval)
  have t: "translated_help_text example_env = ''Usage: clementine [options] [URL(s)]''"
    by (simp add: example_env_def)
  have p: "returned (Parse example_env (''clementine'' # [''-p'']) CommandlineOptions_init)"
    by (simp add: Parse_eval)
  have u: "unrecognized ''--not-a-flag''"
    by (simp add: unrecognized_def find_long_option_def exact_match_def abbreviations_def
        kOptions_def upt_rec)
  have r1: "scan_stop (getopt_start (''clementine'' # [''-p''] @ ''--not-a-flag'' # [''-s''])) 0
      = question_mark"
    using p u
      error_returns_false [where env = example_env and prog = "''clementine''" and pre = "[''-p'']"
        and a = CommandlineOptions_init and f = "''--not-a-flag''" and post = "[''-s'']"]
    by simp
  have r2: "scan_stop (getopt_start (''clementine'' # [''-p''] @ ''--volume'' # [])) 0
      = question_mark"
    using p
      error_returns_false [where env = example_env and prog = "''clementine''" and pre = "[''-p'']"
        and a = CommandlineOptions_init and f = "''--volume''" and post = "[]"]
    by simp
  show ?thesis
    using 1 3 4 5 6 7 8 9 10 p u r1 r2
      error_returns_false [where argv = "[''clementine'', ''--not-a-flag'']" and env = example_env
        and a = CommandlineOptions_init]
      error_returns_false [where argv = "[''clementine'', ''-pv'']" and env = example_env
        and a = CommandlineOptions_init]
      error_returns_false [where argv = "[''clementine'', ''-pz'', ''-s'']" and env = example_env
        and a = CommandlineOptions_init]
      error_returns_false [where argv = "[''clementine'', ''--seek'']" and env = example_env
        and a = CommandlineOptions_init]
      error_returns_false [where argv = "[''clementine'', ''--play=1'']" and env = example_env
        and a = CommandlineOptions_init]
      error_returns_false [where argv = "[''clementine'', ''--p'']" and env = example_env
        and a = CommandlineOptions_init]
      error_returns_false [where argv = "[''clementine'', ''-p'', ''-h'', ''--not-a-flag'']"
        and env = example_env and a = CommandlineOptions_init]
      error_returns_false [where argv = "[''clementine'', ''--'', ''--not-a-flag'']"
        and env = example_env and a = CommandlineOptions_init]
      error_returns_false [where argv = "[''clementine'', ''--sh'', ''-v'', ''5'']"
        and env = example_env and a = CommandlineOptions_init]
      error_returns_false [where argv = "[''clementine'', ''-p'', ''--not-a-flag'', ''-s'']"
        and env = example_env and a = CommandlineOptions_init]
      error_returns_false [where argv = "[''clementine'', ''-p'', ''--volume'']"
        and env = example_env and a = CommandlineOptions_init]
    by (simp add: t CommandlineOptions_init_def)
qed

text \<open>
  An unrecognized flag and a help flag give the caller the same value and leave the same
  object.
\<close>

theorem error_counterexample:
  "\<forall>env. returned (Parse env [''clementine'', ''--not-a-flag''] CommandlineOptions_init)
          = returned (Parse env [''clementine'', ''-h''] CommandlineOptions_init)
        \<and> object (Parse env [''clementine'', ''--not-a-flag''] CommandlineOptions_init)
          = object (Parse env [''clementine'', ''-h''] CommandlineOptions_init)"
  by (simp add: Parse_eval)

text \<open>
  C10. \<open>Parse\<close> is not atomic on failure. When an unrecognized flag stands behind
  arguments that \<open>Parse\<close> accepts on their own, \<open>Parse\<close> returns \<open>false\<close> and the object
  holds every field as those arguments have set it: it is the object that parsing them
  alone yields, without the URLs. Nothing is rolled back.
\<close>

theorem Parse_not_atomic:
  assumes "returned (Parse env (prog # pre) a)" and "''--'' \<notin> set pre"
    and "unrecognized f"
  shows "Parse env (prog # pre @ f # post) a =
           \<lparr> returned = False,
             object = (object (Parse env (prog # pre) a))\<lparr> urls := urls a \<rparr>,
             cout = [] \<rparr>"
proof -
  from accepted [OF assms(1,2)] obtain d' i' where
    "Parse_loop env (getopt_start (prog # pre)) 0 a
       = End_of_options d' i' ((object (Parse env (prog # pre) a))\<lparr> urls := urls a \<rparr>)"
    and "nextchar d' = []"
    and "\<And>rest. Parse_loop env (getopt_start (prog # pre @ rest)) 0 a
          = Parse_loop env (d'\<lparr> todo := rest \<rparr>) i' ((object (Parse env (prog # pre) a))\<lparr> urls := urls a \<rparr>)"
    by blast
  with Parse_loop_unrecognized [OF _ assms(3)] show ?thesis
    by (simp add: Parse_def)
qed

theorem Parse_not_atomic_witness:
  "returned (Parse example_env [''clementine'', ''-p''] CommandlineOptions_init)
   \<and> ''--'' \<notin> set [''-p'']
   \<and> unrecognized ''--not-a-flag''
   \<and> Parse example_env [''clementine'', ''-p'', ''--not-a-flag''] CommandlineOptions_init
       = \<lparr> returned = False,
           object = CommandlineOptions_init\<lparr> player_action := Player_Play \<rparr>,
           cout = [] \<rparr>
   \<and> CommandlineOptions_init\<lparr> player_action := Player_Play \<rparr> \<noteq> CommandlineOptions_init"
proof -
  have 1: "returned (Parse example_env [''clementine'', ''-p''] CommandlineOptions_init)"
    by (simp add: Parse_eval)
  have 2: "''--'' \<notin> set [''-p'']"
    by simp
  have 3: "unrecognized ''--not-a-flag''"
    by (simp add: unrecognized_def find_long_option_def exact_match_def abbreviations_def
        kOptions_def upt_rec)
  have 4: "object (Parse example_env [''clementine'', ''-p''] CommandlineOptions_init)
             \<lparr> urls := urls CommandlineOptions_init \<rparr>
           = CommandlineOptions_init\<lparr> player_action := Player_Play \<rparr>"
    by (simp add: Parse_eval)
  have 5: "CommandlineOptions_init\<lparr> player_action := Player_Play \<rparr> \<noteq> CommandlineOptions_init"
    by (simp add: CommandlineOptions_init_def)
  show ?thesis
    using 1 3 5 Parse_not_atomic [OF 1 2 3, of "[]"]
    by (simp add: 4)
qed

section \<open>Arguments in sequence\<close>

text \<open>
  After arguments that \<open>Parse\<close> accepts on their own, \<open>Parse\<close> goes on as it would on the
  remaining arguments alone, from the object as the first ones have left it. Only the
  URLs may differ, since they are collected from the whole vector at the end.
\<close>

lemma Parse_sequence:
  assumes "returned (Parse env (prog # pre) a)" and "''--'' \<notin> set pre"
  shows "same_but_urls (Parse env (prog # pre @ rest) a)
           (Parse env (prog # rest) ((object (Parse env (prog # pre) a))\<lparr> urls := urls a \<rparr>))"
proof -
  define a' where "a' = (object (Parse env (prog # pre) a))\<lparr> urls := urls a \<rparr>"
  from accepted [OF assms] obtain d' i' where n: "nextchar d' = []"
    and l: "Parse_loop env (getopt_start (prog # pre @ rest)) 0 a = Parse_loop env (d'\<lparr> todo := rest \<rparr>) i' a'"
    unfolding a'_def by blast
  have "exit_view (Parse_loop env (d'\<lparr> todo := rest \<rparr>) i' a')
      = exit_view (Parse_loop env (getopt_start (prog # rest)) 0 a')"
    by (rule Parse_loop_view) (simp_all add: n getopt_start_def)
  with l have "exit_view (Parse_loop env (getopt_start (prog # pre @ rest)) 0 a)
      = exit_view (Parse_loop env (getopt_start (prog # rest)) 0 a')"
    by simp
  from same_but_urlsI [OF this] show ?thesis
    by (simp add: a'_def)
qed

lemma same_but_urls_trans:
  "same_but_urls r r' \<Longrightarrow> same_but_urls r' r'' \<Longrightarrow> same_but_urls r r''"
  by (simp add: same_but_urls_def)

lemma same_but_urls_fields:
  assumes "same_but_urls r r'"
  shows "returned r = returned r'" "cout r = cout r'"
    "player_action (object r) = player_action (object r')"
    "url_list_action (object r) = url_list_action (object r')"
    "set_volume (object r) = set_volume (object r')"
    "volume_modifier (object r) = volume_modifier (object r')"
    "seek_to (object r) = seek_to (object r')"
    "play_track_at (object r) = play_track_at (object r')"
    "show_osd (object r) = show_osd (object r')"
proof -
  from assms have eq: "(object r)\<lparr> urls := [] \<rparr> = (object r')\<lparr> urls := [] \<rparr>"
    by (simp add: same_but_urls_def)
  from assms show "returned r = returned r'" "cout r = cout r'"
    by (simp_all add: same_but_urls_def)
  from arg_cong [OF eq, of player_action] show "player_action (object r) = player_action (object r')"
    by simp
  from arg_cong [OF eq, of url_list_action]
  show "url_list_action (object r) = url_list_action (object r')"
    by simp
  from arg_cong [OF eq, of set_volume] show "set_volume (object r) = set_volume (object r')"
    by simp
  from arg_cong [OF eq, of volume_modifier]
  show "volume_modifier (object r) = volume_modifier (object r')"
    by simp
  from arg_cong [OF eq, of seek_to] show "seek_to (object r) = seek_to (object r')"
    by simp
  from arg_cong [OF eq, of play_track_at] show "play_track_at (object r) = play_track_at (object r')"
    by simp
  from arg_cong [OF eq, of show_osd] show "show_osd (object r) = show_osd (object r')"
    by simp
qed

text \<open>
  After a first option that the \<open>switch\<close> handles with \<open>break\<close>, \<open>Parse\<close> goes on as it
  would on the remaining arguments alone, from the object as that option has left it.
\<close>

lemma Parse_first_option:
  assumes "fst (getopt_long kOptstring kOptions (getopt_start argv) 0) \<noteq> - 1"
    and "switch env (fst (getopt_long kOptstring kOptions (getopt_start argv) 0))
           (optarg (fst (snd (getopt_long kOptstring kOptions (getopt_start argv) 0)))) a = Break a1"
    and "todo (fst (snd (getopt_long kOptstring kOptions (getopt_start argv) 0))) = rest"
    and "nextchar (fst (snd (getopt_long kOptstring kOptions (getopt_start argv) 0))) = []"
  shows "same_but_urls (Parse env argv a) (Parse env (prog # rest) a1)"
proof -
  obtain c d1 i1 where g: "getopt_long kOptstring kOptions (getopt_start argv) 0 = (c, d1, i1)"
    by (cases "getopt_long kOptstring kOptions (getopt_start argv) 0")
  with assms have "Parse_loop env (getopt_start argv) 0 a = Parse_loop env d1 i1 a1"
    by (simp add: Parse_loop.simps [of env "getopt_start argv" 0 a])
  moreover have "exit_view (Parse_loop env d1 i1 a1)
      = exit_view (Parse_loop env (getopt_start (prog # rest)) 0 a1)"
    by (rule Parse_loop_view) (use assms g in \<open>simp_all add: getopt_start_def\<close>)
  ultimately show ?thesis
    by (intro same_but_urlsI) simp
qed

text \<open>With no flag among the arguments every argument becomes a URL, in order.\<close>

lemma Parse_no_flags:
  assumes "list_all nonoption_p args"
  shows "Parse env (prog # args) a =
           \<lparr> returned = True,
             object = a\<lparr> urls := urls a @ map (url_of_argument env) args \<rparr>,
             cout = [] \<rparr>"
proof -
  from assms have skip: "takeWhile nonoption_p args = args" "dropWhile nonoption_p args = []"
    by (simp_all add: list_all_iff)
  have "Parse_loop env (getopt_start (prog # args)) 0 a
      = End_of_options
          \<lparr> scanned = [prog], nonopts = args, todo = [], nextchar = [], optarg = None \<rparr> 0 a"
    by (subst Parse_loop.simps) (simp add: getopt_start_def getopt_long_def skip)
  then show ?thesis
    by (simp add: Parse_def argv_of_def append_urls_eq)
qed

section \<open>Repeated flags\<close>

text \<open>
  A setting names one of the single-valued fields and a value for it. \<open>assign\<close> stores
  the value in the field, overwriting what the field held. \<open>current x a\<close> is the setting
  that the object \<open>a\<close> holds in the field of \<open>x\<close>.
\<close>

datatype setting =
  Set_player_action PlayerAction
  | Set_url_list_action UrlListAction
  | Set_set_volume qint32
  | Set_volume_modifier qint32
  | Set_seek_to qint32
  | Set_play_track_at qint32
  | Set_show_osd bool

fun assign :: "setting \<Rightarrow> CommandlineOptions \<Rightarrow> CommandlineOptions" where
  "assign (Set_player_action v) a = a\<lparr> player_action := v \<rparr>"
| "assign (Set_url_list_action v) a = a\<lparr> url_list_action := v \<rparr>"
| "assign (Set_set_volume v) a = a\<lparr> set_volume := v \<rparr>"
| "assign (Set_volume_modifier v) a = a\<lparr> volume_modifier := v \<rparr>"
| "assign (Set_seek_to v) a = a\<lparr> seek_to := v \<rparr>"
| "assign (Set_play_track_at v) a = a\<lparr> play_track_at := v \<rparr>"
| "assign (Set_show_osd v) a = a\<lparr> show_osd := v \<rparr>"

fun current :: "setting \<Rightarrow> CommandlineOptions \<Rightarrow> setting" where
  "current (Set_player_action v) a = Set_player_action (player_action a)"
| "current (Set_url_list_action v) a = Set_url_list_action (url_list_action a)"
| "current (Set_set_volume v) a = Set_set_volume (set_volume a)"
| "current (Set_volume_modifier v) a = Set_volume_modifier (volume_modifier a)"
| "current (Set_seek_to v) a = Set_seek_to (seek_to a)"
| "current (Set_play_track_at v) a = Set_play_track_at (play_track_at a)"
| "current (Set_show_osd v) a = Set_show_osd (show_osd a)"

text \<open>
  The grammar of the specification: every flag of its table that sets a field, in its
  short and its long form, with the setting that the table gives as its effect. A flag
  that takes a value is listed with the value \<open>s\<close> in each way of writing it: as the next
  argument, behind \<open>=\<close> in the long form, and attached to the letter of the short form.
  The value stored is the number that \<open>toInt\<close> reads in \<open>s\<close>, or \<open>-1\<close> when there is none.
\<close>

definition parsed_or_minus_one :: "qt_env \<Rightarrow> string \<Rightarrow> qint32" where
  "parsed_or_minus_one env s = (case toInt env s of Some n \<Rightarrow> n | None \<Rightarrow> - 1)"

definition grammar :: "qt_env \<Rightarrow> string \<Rightarrow> (string list \<times> setting) list" where
  "grammar env s =
     [([''-p''], Set_player_action Player_Play),
      ([''--play''], Set_player_action Player_Play),
      ([''-t''], Set_player_action Player_PlayPause),
      ([''--play-pause''], Set_player_action Player_PlayPause),
      ([''-u''], Set_player_action Player_Pause),
      ([''--pause''], Set_player_action Player_Pause),
      ([''-s''], Set_player_action Player_Stop),
      ([''--stop''], Set_player_action Player_Stop),
      ([''-r''], Set_player_action Player_Previous),
      ([''--previous''], Set_player_action Player_Previous),
      ([''-f''], Set_player_action Player_Next),
      ([''--next''], Set_player_action Player_Next),
      ([''-v'', s], Set_set_volume (parsed_or_minus_one env s)),
      ([''--volume'', s], Set_set_volume (parsed_or_minus_one env s)),
      ([''--volume='' @ s], Set_set_volume (parsed_or_minus_one env s)),
      ([''--volume-up''], Set_volume_modifier 4),
      ([''--volume-down''], Set_volume_modifier (- 4)),
      ([''--seek-to'', s], Set_seek_to (parsed_or_minus_one env s)),
      ([''--seek-to='' @ s], Set_seek_to (parsed_or_minus_one env s)),
      ([''-a''], Set_url_list_action UrlList_Append),
      ([''--append''], Set_url_list_action UrlList_Append),
      ([''-l''], Set_url_list_action UrlList_Load),
      ([''--load''], Set_url_list_action UrlList_Load),
      ([''-k'', s], Set_play_track_at (parsed_or_minus_one env s)),
      ([''--play-track'', s], Set_play_track_at (parsed_or_minus_one env s)),
      ([''--play-track='' @ s], Set_play_track_at (parsed_or_minus_one env s)),
      ([''-o''], Set_show_osd True),
      ([''--show-osd''], Set_show_osd True)]
     @ (if s = [] then []
        else [([''-v'' @ s], Set_set_volume (parsed_or_minus_one env s)),
              ([''-k'' @ s], Set_play_track_at (parsed_or_minus_one env s))])"

text \<open>
  \<open>Parse\<close> takes each flag of the grammar as the grammar says: it stores the setting and
  goes on with the arguments behind the flag as it would on them alone.
\<close>

lemma Parse_first_answer:
  assumes "getopt_long kOptstring kOptions (getopt_start (prog # args)) 0 = (c, d1, i1)"
    and "c \<noteq> - 1"
    and "switch env c (optarg d1) a = Break a1"
    and "todo d1 = rest"
    and "nextchar d1 = []"
  shows "same_but_urls (Parse env (prog # args) a) (Parse env (prog # rest) a1)"
  by (rule Parse_first_option) (simp_all add: assms)

lemma Parse_grammar:
  "\<forall>(flag, x) \<in> set (grammar env s). \<forall>post a.
     same_but_urls (Parse env (prog # flag @ post) a) (Parse env (prog # post) (assign x a))"
  unfolding grammar_def
  apply (simp del: append_Cons)
  apply (intro conjI allI impI)
  apply (rule Parse_first_answer,
         simp add: getopt_start_def getopt_eval,
         simp add: switch_eval,
         simp add: switch_eval toInt_or_minus_one_def parsed_or_minus_one_def,
         simp, simp)+
  done

lemma Parse_behind_accepted:
  assumes "returned (Parse env (prog # pre) a)" and "''--'' \<notin> set pre"
    and "(flag, x) \<in> set (grammar env s)"
  shows "same_but_urls (Parse env (prog # pre @ flag @ post) a)
           (Parse env (prog # post) (assign x ((object (Parse env (prog # pre) a))\<lparr> urls := urls a \<rparr>)))"
proof -
  define b where "b = (object (Parse env (prog # pre) a))\<lparr> urls := urls a \<rparr>"
  have 1: "same_but_urls (Parse env (prog # pre @ flag @ post) a) (Parse env (prog # flag @ post) b)"
    unfolding b_def by (rule Parse_sequence [OF assms(1,2)])
  from Parse_grammar [of env s prog] assms(3)
  have 2: "same_but_urls (Parse env (prog # flag @ post) b) (Parse env (prog # post) (assign x b))"
    by blast
  from same_but_urls_trans [OF 1 2] show ?thesis
    by (simp add: b_def)
qed

lemma current_same_but_urls:
  assumes "same_but_urls r r'"
  shows "current x (object r) = current x (object r')"
  using same_but_urls_fields [OF assms] by (cases x) simp_all

lemma current_assign [simp]: "current x (assign x b) = x"
  by (cases x) simp_all

text \<open>
  C5. The last occurrence wins. Let \<open>flag\<close> be a flag of the grammar with the setting
  \<open>x\<close>, standing behind arguments \<open>pre\<close> that \<open>Parse\<close> accepts on their own (no \<open>--\<close> among
  them), however often they set the field of \<open>x\<close>. Then \<open>Parse\<close> goes on with the arguments
  \<open>post\<close> behind the flag as it would on them alone, from the object that \<open>pre\<close> has left
  with \<open>x\<close> stored over the value that the field held: nothing accumulates. And when
  \<open>post\<close> is accepted and leaves the field alone, \<open>Parse\<close> accepts the whole list, so that
  the repetition is no error, and the field holds the value of \<open>x\<close>. So \<open>["-p", "-s"]\<close>
  yields \<open>Stop\<close>, \<open>["-a", "-l"]\<close> yields \<open>Load\<close>, and \<open>--volume-up\<close> given twice yields
  \<open>4\<close>.
\<close>

theorem last_flag_wins:
  assumes "returned (Parse env (prog # pre) a)" and "''--'' \<notin> set pre"
    and "(flag, x) \<in> set (grammar env s)"
  shows "same_but_urls (Parse env (prog # pre @ flag @ post) a)
           (Parse env (prog # post) (assign x ((object (Parse env (prog # pre) a))\<lparr> urls := urls a \<rparr>)))
         \<and> ((\<forall>b. returned (Parse env (prog # post) b)
                  \<and> current x (object (Parse env (prog # post) b)) = current x b)
              \<longrightarrow> returned (Parse env (prog # pre @ flag @ post) a)
                  \<and> current x (object (Parse env (prog # pre @ flag @ post) a)) = x)"
proof -
  note 1 = Parse_behind_accepted [OF assms, of post]
  show ?thesis
    using 1 current_same_but_urls [OF 1, of x] same_but_urls_fields(1) [OF 1]
    by simp
qed

text \<open>The examples of the claim, and a flag with a value between other flags.\<close>

theorem last_flag_wins_witness:
  "returned (Parse example_env [''clementine'', ''-p''] CommandlineOptions_init)
   \<and> ''--'' \<notin> set [''-p'']
   \<and> ([''-s''], Set_player_action Player_Stop) \<in> set (grammar example_env [])
   \<and> (\<forall>b. returned (Parse example_env [''clementine''] b)
          \<and> current (Set_player_action Player_Stop) (object (Parse example_env [''clementine''] b))
              = current (Set_player_action Player_Stop) b)
   \<and> returned (Parse example_env [''clementine'', ''-p'', ''-s''] CommandlineOptions_init)
   \<and> player_action (object (Parse example_env [''clementine'', ''-p'', ''-s''] CommandlineOptions_init))
       = Player_Stop
   \<and> returned (Parse example_env [''clementine'', ''-a''] CommandlineOptions_init)
   \<and> ([''-l''], Set_url_list_action UrlList_Load) \<in> set (grammar example_env [])
   \<and> returned (Parse example_env [''clementine'', ''-a'', ''-l''] CommandlineOptions_init)
   \<and> url_list_action (object (Parse example_env [''clementine'', ''-a'', ''-l''] CommandlineOptions_init))
       = UrlList_Load
   \<and> returned (Parse example_env [''clementine'', ''--volume-up''] CommandlineOptions_init)
   \<and> ([''--volume-up''], Set_volume_modifier 4) \<in> set (grammar example_env [])
   \<and> returned (Parse example_env [''clementine'', ''--volume-up'', ''--volume-up'']
        CommandlineOptions_init)
   \<and> volume_modifier (object (Parse example_env [''clementine'', ''--volume-up'', ''--volume-up'']
        CommandlineOptions_init)) = 4
   \<and> returned (Parse example_env [''clementine'', ''-v'', ''30'', ''--next''] CommandlineOptions_init)
   \<and> ''--'' \<notin> set [''-v'', ''30'', ''--next'']
   \<and> ([''--volume'', ''70''], Set_set_volume 70) \<in> set (grammar example_env ''70'')
   \<and> (\<forall>b. returned (Parse example_env [''clementine'', ''-o'', ''--stop'', ''--load''] b)
          \<and> current (Set_set_volume 70)
                (object (Parse example_env [''clementine'', ''-o'', ''--stop'', ''--load''] b))
              = current (Set_set_volume 70) b)
   \<and> returned (Parse example_env
        [''clementine'', ''-v'', ''30'', ''--next'', ''--volume'', ''70'', ''-o'', ''--stop'', ''--load'']
        CommandlineOptions_init)
   \<and> set_volume (object (Parse example_env
        [''clementine'', ''-v'', ''30'', ''--next'', ''--volume'', ''70'', ''-o'', ''--stop'', ''--load'']
        CommandlineOptions_init)) = 70"
proof -
  have p1: "returned (Parse example_env [''clementine'', ''-p''] CommandlineOptions_init)"
    by (simp add: Parse_eval)
  have p2: "returned (Parse example_env [''clementine'', ''-a''] CommandlineOptions_init)"
    by (simp add: Parse_eval)
  have p3: "returned (Parse example_env [''clementine'', ''--volume-up''] CommandlineOptions_init)"
    by (simp add: Parse_eval)
  have p4: "returned (Parse example_env [''clementine'', ''-v'', ''30'', ''--next''] CommandlineOptions_init)"
    by (simp add: Parse_eval)
  have n1: "''--'' \<notin> set [''-p'']" and n2: "''--'' \<notin> set [''-a'']"
    and n3: "''--'' \<notin> set [''--volume-up'']" and n4: "''--'' \<notin> set [''-v'', ''30'', ''--next'']"
    by simp_all
  have g1: "([''-s''], Set_player_action Player_Stop) \<in> set (grammar example_env [])"
    by (simp add: grammar_def)
  have g2: "([''-l''], Set_url_list_action UrlList_Load) \<in> set (grammar example_env [])"
    by (simp add: grammar_def)
  have g3: "([''--volume-up''], Set_volume_modifier 4) \<in> set (grammar example_env [])"
    by (simp add: grammar_def)
  have g4: "([''--volume'', ''70''], Set_set_volume 70) \<in> set (grammar example_env ''70'')"
    by (simp add: grammar_def parsed_or_minus_one_def example_env_def example_toInt_def)
  have e: "Parse example_env [''clementine''] b = \<lparr> returned = True, object = b, cout = [] \<rparr>" for b
    by (simp add: Parse_eval)
  have e4: "returned (Parse example_env [''clementine'', ''-o'', ''--stop'', ''--load''] b)
      \<and> set_volume (object (Parse example_env [''clementine'', ''-o'', ''--stop'', ''--load''] b))
          = set_volume b" for b
    by (simp add: Parse_eval append_urls_eq)
  show ?thesis
    using p1 p2 p3 p4 g1 g2 g3 g4 e4
      last_flag_wins [OF p1 n1 g1, of "[]"]
      last_flag_wins [OF p2 n2 g2, of "[]"]
      last_flag_wins [OF p3 n3 g3, of "[]"]
      last_flag_wins [OF p4 n4 g4, of "[''-o'', ''--stop'', ''--load'']"]
    by (simp add: e)
qed

section \<open>Numbers that do not parse\<close>

text \<open>
  C6. When the argument \<open>s\<close> of \<open>--volume\<close>, \<open>--seek-to\<close> or \<open>--play-track\<close> (in any of
  their forms) is no integer for \<open>toInt\<close>, \<open>Parse\<close> does not fail there: it stores \<open>-1\<close> in
  the field and goes on with the arguments that follow. Wherever the flag stands, behind
  arguments \<open>pre\<close> that \<open>Parse\<close> accepts on their own, the outcome is that of parsing the
  arguments after it alone, from the object as \<open>pre\<close> has set it with the field at \<open>-1\<close>.
  In particular \<open>["--volume", s]\<close> is accepted with \<open>set_volume = -1\<close>.
\<close>

theorem unparsable_number_gives_sentinel:
  assumes "toInt env s = None"
    and "returned (Parse env (prog # pre) a)" and "''--'' \<notin> set pre"
  shows "(\<forall>flag \<in> set [[''-v'', s], [''--volume'', s], [''--volume='' @ s]].
            same_but_urls (Parse env (prog # pre @ flag @ rest) a)
              (Parse env (prog # rest)
                ((object (Parse env (prog # pre) a))\<lparr> urls := urls a, set_volume := - 1 \<rparr>)))
       \<and> (\<forall>flag \<in> set [[''--seek-to'', s], [''--seek-to='' @ s]].
            same_but_urls (Parse env (prog # pre @ flag @ rest) a)
              (Parse env (prog # rest)
                ((object (Parse env (prog # pre) a))\<lparr> urls := urls a, seek_to := - 1 \<rparr>)))
       \<and> (\<forall>flag \<in> set [[''-k'', s], [''--play-track'', s], [''--play-track='' @ s]].
            same_but_urls (Parse env (prog # pre @ flag @ rest) a)
              (Parse env (prog # rest)
                ((object (Parse env (prog # pre) a))\<lparr> urls := urls a, play_track_at := - 1 \<rparr>)))
       \<and> (s \<noteq> [] \<longrightarrow>
            same_but_urls (Parse env (prog # pre @ (''-v'' @ s) # rest) a)
              (Parse env (prog # rest)
                ((object (Parse env (prog # pre) a))\<lparr> urls := urls a, set_volume := - 1 \<rparr>))
            \<and> same_but_urls (Parse env (prog # pre @ (''-k'' @ s) # rest) a)
              (Parse env (prog # rest)
                ((object (Parse env (prog # pre) a))\<lparr> urls := urls a, play_track_at := - 1 \<rparr>)))
       \<and> returned (Parse env [prog, ''--volume'', s] CommandlineOptions_init)
       \<and> set_volume (object (Parse env [prog, ''--volume'', s] CommandlineOptions_init)) = - 1"
proof -
  note eval = getopt_start_def getopt_eval switch_eval toInt_or_minus_one_def assms(1)
  define b where "b = (object (Parse env (prog # pre) a))\<lparr> urls := urls a \<rparr>"
  have seq: "same_but_urls (Parse env (prog # pre @ more) a) (Parse env (prog # more) b)" for more
    unfolding b_def by (rule Parse_sequence [OF assms(2,3)])
  have v1: "same_but_urls (Parse env (prog # [''-v'', s] @ rest) a)
      (Parse env (prog # rest) (a\<lparr> set_volume := - 1 \<rparr>))" for rest a
    by (rule Parse_first_option) (simp_all add: eval)
  have v2: "same_but_urls (Parse env (prog # [''--volume'', s] @ rest) a)
      (Parse env (prog # rest) (a\<lparr> set_volume := - 1 \<rparr>))" for rest a
    by (rule Parse_first_option) (simp_all add: eval)
  have v3: "same_but_urls (Parse env (prog # [''--volume='' @ s] @ rest) a)
      (Parse env (prog # rest) (a\<lparr> set_volume := - 1 \<rparr>))" for a
    by (rule Parse_first_option) (simp_all add: eval)
  have s2: "same_but_urls (Parse env (prog # [''--seek-to'', s] @ rest) a)
      (Parse env (prog # rest) (a\<lparr> seek_to := - 1 \<rparr>))" for a
    by (rule Parse_first_option) (simp_all add: eval)
  have s3: "same_but_urls (Parse env (prog # [''--seek-to='' @ s] @ rest) a)
      (Parse env (prog # rest) (a\<lparr> seek_to := - 1 \<rparr>))" for a
    by (rule Parse_first_option) (simp_all add: eval)
  have k1: "same_but_urls (Parse env (prog # [''-k'', s] @ rest) a)
      (Parse env (prog # rest) (a\<lparr> play_track_at := - 1 \<rparr>))" for a
    by (rule Parse_first_option) (simp_all add: eval)
  have k2: "same_but_urls (Parse env (prog # [''--play-track'', s] @ rest) a)
      (Parse env (prog # rest) (a\<lparr> play_track_at := - 1 \<rparr>))" for a
    by (rule Parse_first_option) (simp_all add: eval)
  have k3: "same_but_urls (Parse env (prog # [''--play-track='' @ s] @ rest) a)
      (Parse env (prog # rest) (a\<lparr> play_track_at := - 1 \<rparr>))" for a
    by (rule Parse_first_option) (simp_all add: eval)
  have v4: "same_but_urls (Parse env (prog # (''-v'' @ s) # rest) a)
      (Parse env (prog # rest) (a\<lparr> set_volume := - 1 \<rparr>))" if "s \<noteq> []" for a
    by (rule Parse_first_option) (use that in \<open>simp_all add: eval\<close>)
  have k4: "same_but_urls (Parse env (prog # (''-k'' @ s) # rest) a)
      (Parse env (prog # rest) (a\<lparr> play_track_at := - 1 \<rparr>))" if "s \<noteq> []" for a
    by (rule Parse_first_option) (use that in \<open>simp_all add: eval\<close>)
  have "Parse env [prog] (CommandlineOptions_init\<lparr> set_volume := - 1 \<rparr>)
      = \<lparr> returned = True, object = CommandlineOptions_init, cout = [] \<rparr>"
    using Parse_no_flags [of "[]" env prog "CommandlineOptions_init\<lparr> set_volume := - 1 \<rparr>"]
    by (simp add: CommandlineOptions_init_def)
  with same_but_urls_fields(1,5) [OF v2 [of "[]" CommandlineOptions_init]]
  have ex: "returned (Parse env [prog, ''--volume'', s] CommandlineOptions_init)"
    "set_volume (object (Parse env [prog, ''--volume'', s] CommandlineOptions_init)) = - 1"
    by (simp_all add: CommandlineOptions_init_def)
  show ?thesis
    using ex
      same_but_urls_trans [OF seq [of "[''-v'', s] @ rest"] v1 [of rest b]]
      same_but_urls_trans [OF seq [of "[''--volume'', s] @ rest"] v2 [of rest b]]
      same_but_urls_trans [OF seq [of "[''--volume='' @ s] @ rest"] v3 [of b]]
      same_but_urls_trans [OF seq [of "[''--seek-to'', s] @ rest"] s2 [of b]]
      same_but_urls_trans [OF seq [of "[''--seek-to='' @ s] @ rest"] s3 [of b]]
      same_but_urls_trans [OF seq [of "[''-k'', s] @ rest"] k1 [of b]]
      same_but_urls_trans [OF seq [of "[''--play-track'', s] @ rest"] k2 [of b]]
      same_but_urls_trans [OF seq [of "[''--play-track='' @ s] @ rest"] k3 [of b]]
      same_but_urls_trans [OF seq [of "(''-v'' @ s) # rest"] v4 [of b]]
      same_but_urls_trans [OF seq [of "(''-k'' @ s) # rest"] k4 [of b]]
    by (simp add: b_def)
qed

theorem unparsable_number_gives_sentinel_witness:
  "toInt example_env ''notanumber'' = None
   \<and> returned (Parse example_env [''clementine''] CommandlineOptions_init)
   \<and> ''--'' \<notin> set []
   \<and> returned (Parse example_env [''clementine'', ''--volume'', ''notanumber''] CommandlineOptions_init)
   \<and> set_volume (object (Parse example_env [''clementine'', ''--volume'', ''notanumber'']
        CommandlineOptions_init)) = - 1
   \<and> returned (Parse example_env [''clementine'', ''--seek-to'', ''30''] CommandlineOptions_init)
   \<and> ''--'' \<notin> set [''--seek-to'', ''30'']
   \<and> returned (Parse example_env
        [''clementine'', ''--seek-to'', ''30'', ''--seek-to=notanumber'', ''-v'', ''40'', ''--next'']
        CommandlineOptions_init)
   \<and> seek_to (object (Parse example_env
        [''clementine'', ''--seek-to'', ''30'', ''--seek-to=notanumber'', ''-v'', ''40'', ''--next'']
        CommandlineOptions_init)) = - 1
   \<and> set_volume (object (Parse example_env
        [''clementine'', ''--seek-to'', ''30'', ''--seek-to=notanumber'', ''-v'', ''40'', ''--next'']
        CommandlineOptions_init)) = 40
   \<and> player_action (object (Parse example_env
        [''clementine'', ''--seek-to'', ''30'', ''--seek-to=notanumber'', ''-v'', ''40'', ''--next'']
        CommandlineOptions_init)) = Player_Next"
proof -
  have h: "toInt example_env ''notanumber'' = None"
    by (simp add: example_env_def example_toInt_def)
  have p0: "returned (Parse example_env (''clementine'' # []) CommandlineOptions_init)"
    by (simp add: Parse_eval)
  have p1: "returned (Parse example_env (''clementine'' # [''--seek-to'', ''30'']) CommandlineOptions_init)"
    by (simp add: Parse_eval)
  have o0: "(object (Parse example_env (''clementine'' # []) CommandlineOptions_init))
      \<lparr> urls := urls CommandlineOptions_init, set_volume := - 1 \<rparr> = CommandlineOptions_init"
    by (simp add: Parse_eval)
  have o1: "(object (Parse example_env (''clementine'' # [''--seek-to'', ''30'']) CommandlineOptions_init))
      \<lparr> urls := urls CommandlineOptions_init, seek_to := - 1 \<rparr> = CommandlineOptions_init"
    by (simp add: Parse_eval example_env_def example_toInt_def)
  have 1: "same_but_urls
      (Parse example_env (''clementine'' # [] @ [''--volume'', ''notanumber''] @ []) CommandlineOptions_init)
      (Parse example_env (''clementine'' # []) CommandlineOptions_init)"
    using unparsable_number_gives_sentinel [OF h p0, of "[]"]
    by (simp add: o0)
  have 2: "same_but_urls
      (Parse example_env
        (''clementine'' # [''--seek-to'', ''30''] @ [''--seek-to='' @ ''notanumber'']
          @ [''-v'', ''40'', ''--next'']) CommandlineOptions_init)
      (Parse example_env (''clementine'' # [''-v'', ''40'', ''--next'']) CommandlineOptions_init)"
    using unparsable_number_gives_sentinel [OF h p1, of "[''-v'', ''40'', ''--next'']"]
    by (simp add: o1)
  have 3: "Parse example_env [''clementine''] CommandlineOptions_init
      = \<lparr> returned = True, object = CommandlineOptions_init, cout = [] \<rparr>"
    by (simp add: Parse_eval)
  have 4: "returned (Parse example_env [''clementine'', ''-v'', ''40'', ''--next''] CommandlineOptions_init)
    \<and> seek_to (object (Parse example_env [''clementine'', ''-v'', ''40'', ''--next'']
        CommandlineOptions_init)) = - 1
    \<and> set_volume (object (Parse example_env [''clementine'', ''-v'', ''40'', ''--next'']
        CommandlineOptions_init)) = 40
    \<and> player_action (object (Parse example_env [''clementine'', ''-v'', ''40'', ''--next'']
        CommandlineOptions_init)) = Player_Next"
    by (simp add: Parse_eval append_urls_eq example_env_def example_toInt_def)
  show ?thesis
    using h p0 p1 same_but_urls_fields [OF 1] same_but_urls_fields [OF 2] 3 4
    by (simp add: CommandlineOptions_init_def)
qed

section \<open>Positional arguments\<close>

text \<open>
  C7. The loop after the scan starts at \<open>option_index + 1\<close>, where \<open>option_index\<close> is the
  position of the last long option in the table \<open>kOptions\<close> (or \<open>0\<close>), not the position
  \<open>optind\<close> of the first non-option in the vector. After the long flag \<open>--show-osd\<close>,
  entry 14 of the table, the non-flag argument \<open>song.mp3\<close> is not appended to \<open>urls\<close>:
  the claim does not hold on the code.
\<close>

theorem positional_after_long_flag:
  "Parse env [''clementine'', ''--show-osd'', ''song.mp3''] CommandlineOptions_init
     = \<lparr> returned = True, object = CommandlineOptions_init\<lparr> show_osd := True \<rparr>, cout = [] \<rparr>
   \<and> urls (CommandlineOptions_init\<lparr> show_osd := True \<rparr>) = []"
  by (simp add: Parse_eval)

text \<open>With no flag in the list the example of the claim comes out as stated.\<close>

lemma positional_examples:
  "urls (object (Parse env [''clementine'', ''song.mp3'', ''http://example.com/x''] CommandlineOptions_init))
     = [fromLocalFile (absoluteFilePath env ''song.mp3''), ''http://example.com/x'']"
  by (simp add: Parse_eval)

text \<open>
  C8. For \<open>["-p", "a.mp3", "-o", "b.mp3"]\<close> the library permutes the vector to
  \<open>-p -o a.mp3 b.mp3\<close> and \<open>option_index\<close> stays \<open>0\<close>, so the loop after the scan runs
  over all four arguments: \<open>player_action\<close> is \<open>Play\<close> and \<open>show_osd\<close> is true, but
  \<open>urls\<close> holds four entries, the two flags first, not \<open>[a.mp3, b.mp3]\<close>. The claim
  does not hold on the code.
\<close>

theorem interspersed_flags_become_urls:
  "Parse env [''clementine'', ''-p'', ''a.mp3'', ''-o'', ''b.mp3''] CommandlineOptions_init
     = \<lparr> returned = True,
         object = CommandlineOptions_init
           \<lparr> player_action := Player_Play, show_osd := True,
             urls := [fromLocalFile (absoluteFilePath env ''-p''),
                      fromLocalFile (absoluteFilePath env ''-o''),
                      fromLocalFile (absoluteFilePath env ''a.mp3''),
                      fromLocalFile (absoluteFilePath env ''b.mp3'')] \<rparr>,
         cout = [] \<rparr>"
  by (simp add: Parse_eval)

section \<open>Emptiness of what \<open>Parse\<close> yields\<close>

text \<open>
  The flags that the loop of \<open>Parse\<close> handles, in the order of the arguments: the answers
  of the successive calls of \<open>getopt_long\<close>, each with its \<open>optarg\<close>, before the answer at
  which the loop stops.
\<close>

function scan :: "getopt_data \<Rightarrow> nat \<Rightarrow> (int \<times> string option) list" where
  "scan d longind =
     (case getopt_long kOptstring kOptions d longind of
        (c, d', longind') \<Rightarrow>
          if c = - 1 \<or> c = question_mark \<or> c = of_char CHR ''h'' then []
          else (c, optarg d') # scan d' longind')"
  by pat_completeness auto
termination
  by (relation "measure (\<lambda>(d, longind). pending d)")
     (auto dest: getopt_long_pending [OF sym])

declare scan.simps [simp del]

text \<open>
  \<open>lasting\<close> holds the values of the flags that leave, in a field that \<open>is_empty\<close> tests,
  a value other than the default: the six player actions, \<open>--show-osd\<close>, \<open>--volume-up\<close>
  and \<open>--volume-down\<close>. \<open>number_after env c n xs\<close> is the number in the field that the
  flag of value \<open>c\<close> sets, after the flags \<open>xs\<close>, when it was \<open>n\<close> before them: the number
  read in the value of the last such flag, \<open>-1\<close> if that is no number, and \<open>n\<close> if there is
  no such flag.
\<close>

definition lasting :: "int list" where
  "lasting = map of_char ''ptusrfo'' @ [VolumeUp, VolumeDown]"

fun number_after :: "qt_env \<Rightarrow> int \<Rightarrow> qint32 \<Rightarrow> (int \<times> string option) list \<Rightarrow> qint32" where
  "number_after env c n [] = n"
| "number_after env c n ((c', arg) # xs) =
     number_after env c (if c' = c then toInt_or_minus_one env arg else n) xs"

text \<open>
  The object \<open>a\<close> is empty but for its URLs and the flags \<open>xs\<close> leave it so.
\<close>

definition stays_empty :: "qt_env \<Rightarrow> CommandlineOptions \<Rightarrow> (int \<times> string option) list \<Rightarrow> bool" where
  "stays_empty env a xs \<longleftrightarrow>
     player_action a = Player_None \<and> volume_modifier a = 0 \<and> \<not> show_osd a
     \<and> (\<forall>x \<in> set xs. fst x \<notin> set lasting)
     \<and> number_after env (of_char CHR ''v'') (set_volume a) xs = - 1
     \<and> number_after env SeekTo (seek_to a) xs = - 1
     \<and> number_after env (of_char CHR ''k'') (play_track_at a) xs = - 1"

lemma switch_stays_empty:
  assumes "handled c"
  shows "\<exists>a1. switch env c arg a = Break a1
           \<and> (stays_empty env a1 xs \<longleftrightarrow> stays_empty env a ((c, arg) # xs))"
proof -
  have "\<forall>c \<in> set (map of_char ''ptusrfvalko'' @ [VolumeUp, VolumeDown, SeekTo]).
      \<exists>a1. switch env c arg a = Break a1
           \<and> (stays_empty env a1 xs \<longleftrightarrow> stays_empty env a ((c, arg) # xs))"
    by (simp add: switch_eval stays_empty_def lasting_def)
  with assms show ?thesis
    by (simp only: handled_def)
qed

lemma Parse_loop_stays_empty:
  "is_empty ((snd (exit_view (Parse_loop env d i a)))\<lparr> urls := [] \<rparr>) \<longleftrightarrow> stays_empty env a (scan d i)"
proof (induction env d i a rule: Parse_loop.induct)
  case (1 env d i a)
  obtain c d1 i1 where g: "getopt_long kOptstring kOptions d i = (c, d1, i1)"
    by (cases "getopt_long kOptstring kOptions d i")
  show ?case
  proof (cases "c = - 1 \<or> c = question_mark \<or> c = of_char CHR ''h''")
    case True
    then have s: "scan d i = []"
      using g by (simp add: scan.simps [of d i])
    have sh: "switch env (of_char CHR ''h'') arg a = Return_false (translated_help_text env) a" for arg
      by (simp add: switch_def)
    have l: "Parse_loop env d i a =
        (if c = - 1 then End_of_options d1 i1 a
         else case switch env c (optarg d1) a of
                Break a' \<Rightarrow> Parse_loop env d1 i1 a'
              | Return_false out a' \<Rightarrow> Returned_false out a')"
      using g by (simp add: Parse_loop.simps [of env d i a])
    from True consider "c = - 1" | "c = question_mark" | "c = of_char CHR ''h''"
      by blast
    then have "snd (exit_view (Parse_loop env d i a)) = a"
    proof cases
      case 1
      with l show ?thesis by (simp add: exit_view_def)
    next
      case 2
      with l show ?thesis by (simp add: exit_view_def)
    next
      case 3
      have "c \<noteq> - 1" unfolding 3 by simp
      with l sh show ?thesis unfolding 3 by (simp add: exit_view_def)
    qed
    then show ?thesis
      by (auto simp: s stays_empty_def is_empty_def)
  next
    case False
    with getopt_long_values [OF g] have "handled c" by simp
    from switch_stays_empty [OF this, of env "optarg d1" a "scan d1 i1"]
    obtain a1 where sw: "switch env c (optarg d1) a = Break a1"
      and st: "stays_empty env a1 (scan d1 i1) \<longleftrightarrow> stays_empty env a ((c, optarg d1) # scan d1 i1)"
      by blast
    from False g have s: "scan d i = (c, optarg d1) # scan d1 i1"
      by (simp add: scan.simps [of d i])
    from False g sw have p: "Parse_loop env d i a = Parse_loop env d1 i1 a1"
      by (simp add: Parse_loop.simps [of env d i a])
    from False have "c \<noteq> - 1" by simp
    from "1.IH" [OF g [symmetric] refl this sw] show ?thesis
      by (simp only: s p st)
  qed
qed

lemma current_not_empty:
  assumes "\<not> is_empty (assign x CommandlineOptions_init)" and "current x b = x"
  shows "\<not> is_empty b"
  using assms by (cases x) (auto simp: is_empty_def CommandlineOptions_init_def)

text \<open>
  C9, as amended. Whatever the arguments, \<open>is_empty\<close> of the object that \<open>Parse\<close> leaves,
  starting from a freshly constructed one, is true exactly when \<open>urls\<close> is empty, none
  of the flags handled is a lasting one, and for each of \<open>--volume\<close>, \<open>--seek-to\<close> and
  \<open>--play-track\<close> the value of its last occurrence, if there is one, reads as \<open>-1\<close> or as
  no number. So \<open>is_empty\<close> is false as soon as a flag that sets \<open>player_action\<close>,
  \<open>show_osd\<close> or \<open>volume_modifier\<close> has been handled, or the last value given to one of
  the three flags with a value is a number other than \<open>-1\<close>. The flags \<open>-a\<close> and \<open>-l\<close> are
  without influence on it: \<open>url_list_action\<close> is not examined. Which of the arguments
  reach \<open>urls\<close> is the matter of C7 and C8.

  In terms of the grammar: let \<open>flag\<close> be a flag of the grammar whose setting \<open>x\<close>, stored
  in a fresh object, makes that object not empty (any flag but \<open>-a\<close> and \<open>-l\<close>, a flag
  with a value if the value reads as a number other than \<open>-1\<close>). When it stands behind
  arguments \<open>pre\<close> that \<open>Parse\<close> accepts on their own (no \<open>--\<close> among them), and the
  arguments \<open>post\<close> behind it leave its field alone, then the object that \<open>Parse\<close> leaves
  is not empty, whatever object \<open>Parse\<close> started from.
\<close>

theorem is_empty_after_Parse:
  "(is_empty (object (Parse env argv CommandlineOptions_init)) \<longleftrightarrow>
      urls (object (Parse env argv CommandlineOptions_init)) = []
      \<and> (\<forall>x \<in> set (scan (getopt_start argv) 0). fst x \<notin> set lasting)
      \<and> number_after env (of_char CHR ''v'') (- 1) (scan (getopt_start argv) 0) = - 1
      \<and> number_after env SeekTo (- 1) (scan (getopt_start argv) 0) = - 1
      \<and> number_after env (of_char CHR ''k'') (- 1) (scan (getopt_start argv) 0) = - 1)
   \<and> (returned (Parse env (prog # pre) a) \<and> ''--'' \<notin> set pre
        \<and> (flag, x) \<in> set (grammar env s)
        \<and> \<not> is_empty (assign x CommandlineOptions_init)
        \<and> (\<forall>b. current x (object (Parse env (prog # post) b)) = current x b)
       \<longrightarrow> \<not> is_empty (object (Parse env (prog # pre @ flag @ post) a)))"
proof -
  define b where "b = object (Parse env argv CommandlineOptions_init)"
  have "b\<lparr> urls := [] \<rparr>
      = (snd (exit_view (Parse_loop env (getopt_start argv) 0 CommandlineOptions_init)))\<lparr> urls := [] \<rparr>"
    unfolding b_def
    by (cases "Parse_loop env (getopt_start argv) 0 CommandlineOptions_init")
       (simp_all add: Parse_def exit_view_def append_urls_eq)
  with Parse_loop_stays_empty [of env "getopt_start argv" 0 CommandlineOptions_init]
  have "is_empty (b\<lparr> urls := [] \<rparr>)
      \<longleftrightarrow> stays_empty env CommandlineOptions_init (scan (getopt_start argv) 0)"
    by simp
  moreover have "is_empty b \<longleftrightarrow> urls b = [] \<and> is_empty (b\<lparr> urls := [] \<rparr>)"
    by (auto simp: is_empty_def)
  ultimately have "is_empty b \<longleftrightarrow>
      urls b = [] \<and> stays_empty env CommandlineOptions_init (scan (getopt_start argv) 0)"
    by (simp only:)
  then have 1: "is_empty (object (Parse env argv CommandlineOptions_init)) \<longleftrightarrow>
      urls (object (Parse env argv CommandlineOptions_init)) = []
      \<and> (\<forall>x \<in> set (scan (getopt_start argv) 0). fst x \<notin> set lasting)
      \<and> number_after env (of_char CHR ''v'') (- 1) (scan (getopt_start argv) 0) = - 1
      \<and> number_after env SeekTo (- 1) (scan (getopt_start argv) 0) = - 1
      \<and> number_after env (of_char CHR ''k'') (- 1) (scan (getopt_start argv) 0) = - 1"
    unfolding b_def by (simp add: stays_empty_def CommandlineOptions_init_def)
  have 2: "\<not> is_empty (object (Parse env (prog # pre @ flag @ post) a))"
    if p: "returned (Parse env (prog # pre) a)" "''--'' \<notin> set pre"
      and g: "(flag, x) \<in> set (grammar env s)"
      and x: "\<not> is_empty (assign x CommandlineOptions_init)"
      and post: "\<forall>b. current x (object (Parse env (prog # post) b)) = current x b"
  proof -
    from current_same_but_urls [OF Parse_behind_accepted [OF p g, of post], of x] post
    have "current x (object (Parse env (prog # pre @ flag @ post) a)) = x"
      by simp
    with x show ?thesis
      by (rule current_not_empty)
  qed
  from 1 2 show ?thesis
    by blast
qed

text \<open>
  \<open>--load\<close> leaves an empty object, so does \<open>--append --load\<close>, and so does
  \<open>--volume 5 --volume=x\<close>, where the last value is no number. \<open>--volume-down\<close> and \<open>--seek-to 30\<close> leave an object that
  is not empty, and so does \<open>--play\<close> between \<open>--load\<close> and \<open>--show-osd\<close>.
\<close>

lemmas scan_eval = scan.simps getopt_start_def getopt_eval question_mark_def
  VolumeUp_def VolumeDown_def SeekTo_def

theorem is_empty_after_Parse_witness:
  "scan (getopt_start [''clementine'', ''--load'']) 0 = [(of_char CHR ''l'', None)]
   \<and> is_empty (object (Parse example_env [''clementine'', ''--load''] CommandlineOptions_init))
   \<and> scan (getopt_start [''clementine'', ''--append'', ''--load'']) 0
     = [(of_char CHR ''a'', None), (of_char CHR ''l'', None)]
   \<and> is_empty (object (Parse example_env [''clementine'', ''--append'', ''--load'']
        CommandlineOptions_init))
   \<and> scan (getopt_start [''clementine'', ''--volume'', ''5'', ''--volume=x'']) 0
     = [(of_char CHR ''v'', Some ''5''), (of_char CHR ''v'', Some ''x'')]
   \<and> is_empty (object (Parse example_env [''clementine'', ''--volume'', ''5'', ''--volume=x'']
        CommandlineOptions_init))
   \<and> scan (getopt_start [''clementine'', ''--volume-down'']) 0 = [(VolumeDown, None)]
   \<and> \<not> is_empty (object (Parse example_env [''clementine'', ''--volume-down'']
        CommandlineOptions_init))
   \<and> scan (getopt_start [''clementine'', ''--seek-to'', ''30'']) 0 = [(SeekTo, Some ''30'')]
   \<and> \<not> is_empty (object (Parse example_env [''clementine'', ''--seek-to'', ''30'']
        CommandlineOptions_init))
   \<and> returned (Parse example_env [''clementine'', ''--load''] CommandlineOptions_init)
   \<and> ''--'' \<notin> set [''--load'']
   \<and> ([''--play''], Set_player_action Player_Play) \<in> set (grammar example_env [])
   \<and> \<not> is_empty (assign (Set_player_action Player_Play) CommandlineOptions_init)
   \<and> (\<forall>b. current (Set_player_action Player_Play)
              (object (Parse example_env [''clementine'', ''--show-osd''] b))
            = current (Set_player_action Player_Play) b)
   \<and> \<not> is_empty (object (Parse example_env [''clementine'', ''--load'', ''--play'', ''--show-osd'']
        CommandlineOptions_init))"
proof -
  have s0: "scan (getopt_start [''clementine'', ''--load'']) 0 = [(of_char CHR ''l'', None)]"
    by (simp add: scan_eval)
  have u0: "urls (object (Parse example_env [''clementine'', ''--load''] CommandlineOptions_init)) = []"
    by (simp add: Parse_eval)
  have s1: "scan (getopt_start [''clementine'', ''--append'', ''--load'']) 0
      = [(of_char CHR ''a'', None), (of_char CHR ''l'', None)]"
    by (simp add: scan_eval)
  have s2: "scan (getopt_start [''clementine'', ''--volume'', ''5'', ''--volume=x'']) 0
      = [(of_char CHR ''v'', Some ''5''), (of_char CHR ''v'', Some ''x'')]"
    by (simp add: scan_eval)
  have s3: "scan (getopt_start [''clementine'', ''--volume-down'']) 0 = [(VolumeDown, None)]"
    by (simp add: scan_eval)
  have s4: "scan (getopt_start [''clementine'', ''--seek-to'', ''30'']) 0 = [(SeekTo, Some ''30'')]"
    by (simp add: scan_eval)
  have u1: "urls (object (Parse example_env [''clementine'', ''--append'', ''--load'']
      CommandlineOptions_init)) = []"
    by (simp add: Parse_eval)
  have u2: "urls (object (Parse example_env [''clementine'', ''--volume'', ''5'', ''--volume=x'']
      CommandlineOptions_init)) = []"
    by (simp add: Parse_eval)
  have n: "toInt_or_minus_one example_env (Some ''x'') = - 1"
    "toInt_or_minus_one example_env (Some ''30'') = 30"
    by (simp_all add: toInt_or_minus_one_def example_env_def example_toInt_def)
  have p: "returned (Parse example_env (''clementine'' # [''--load'']) CommandlineOptions_init)"
    by (simp add: Parse_eval)
  have g: "([''--play''], Set_player_action Player_Play) \<in> set (grammar example_env [])"
    by (simp add: grammar_def)
  have x: "\<not> is_empty (assign (Set_player_action Player_Play) CommandlineOptions_init)"
    by (simp add: is_empty_def)
  have e: "\<forall>b. current (Set_player_action Player_Play)
               (object (Parse example_env (''clementine'' # [''--show-osd'']) b))
             = current (Set_player_action Player_Play) b"
    by (simp add: Parse_eval append_urls_eq)
  show ?thesis
    using s0 s1 s2 s3 s4 p g x e
      is_empty_after_Parse [of example_env "[''clementine'', ''--load'']"
        "''clementine''" "[''--load'']" CommandlineOptions_init "[''--play'']"
        "Set_player_action Player_Play" "[]" "[''--show-osd'']"]
      is_empty_after_Parse [of example_env "[''clementine'', ''--append'', ''--load'']"
        "''clementine''" "[''--load'']" CommandlineOptions_init "[''--play'']"
        "Set_player_action Player_Play" "[]" "[''--show-osd'']"]
      is_empty_after_Parse [of example_env "[''clementine'', ''--volume'', ''5'', ''--volume=x'']"
        "''clementine''" "[''--load'']" CommandlineOptions_init "[''--play'']"
        "Set_player_action Player_Play" "[]" "[''--show-osd'']"]
      is_empty_after_Parse [of example_env "[''clementine'', ''--volume-down'']"
        "''clementine''" "[''--load'']" CommandlineOptions_init "[''--play'']"
        "Set_player_action Player_Play" "[]" "[''--show-osd'']"]
      is_empty_after_Parse [of example_env "[''clementine'', ''--seek-to'', ''30'']"
        "''clementine''" "[''--load'']" CommandlineOptions_init "[''--play'']"
        "Set_player_action Player_Play" "[]" "[''--show-osd'']"]
    by (simp add: u0 u1 u2 n lasting_def VolumeUp_def VolumeDown_def SeekTo_def)
qed

text \<open>
  The claim as stated fails at \<open>["--load"]\<close>: \<open>Parse\<close> accepts it, \<open>url_list_action\<close>
  deviates from its default and \<open>is_empty\<close> is true.
\<close>

theorem is_empty_after_load_counterexample:
  "\<forall>env. returned (Parse env [''clementine'', ''--load''] CommandlineOptions_init)
     \<and> url_list_action (object (Parse env [''clementine'', ''--load''] CommandlineOptions_init))
         = UrlList_Load
     \<and> url_list_action CommandlineOptions_init = UrlList_Append
     \<and> is_empty (object (Parse env [''clementine'', ''--load''] CommandlineOptions_init))"
  by (simp add: Parse_eval is_empty_def)

end
